theory Spec2Isabelle
  imports Main
begin

section \<open>Python values used by \<open>paperwork_backend/fs.py\<close>\<close>

text \<open>
  A Python \<open>str\<close> is a sequence of code points, a \<open>bytes\<close> object a sequence of
  integers below 256. Both are lists of naturals here; \<open>lit\<close> writes a literal.
  A \<open>str\<close> holds code points below \<open>0x110000\<close> only (\<open>is_str\<close>); lone surrogates
  (\<open>0xD800\<close> to \<open>0xDFFF\<close>) are legal in a \<open>str\<close>: \<open>os.fsdecode\<close> produces them for
  file names that are not UTF-8.
  Mode strings are only inspected by single-character containment (\<open>'w' in mode\<close>) and are
  kept as \<open>string\<close>.
\<close>

type_synonym ustr = "nat list"
type_synonym bytes = "nat list"

definition lit :: "string \<Rightarrow> nat list" where
  "lit s = map of_char s"

definition is_str :: "ustr \<Rightarrow> bool" where
  "is_str s = list_all (\<lambda>c. c < 0x110000) s"

definition is_bytes :: "bytes \<Rightarrow> bool" where
  "is_bytes bs = list_all (\<lambda>b. b < 256) bs"

datatype gerror =
    G_IO_ERROR_NOT_FOUND
  | G_IO_ERROR_EXISTS
  | G_IO_ERROR_INVALID_ARGUMENT
  | G_IO_ERROR_CLOSED
  | G_IO_ERROR_NOT_SUPPORTED

text \<open>
  The exceptions the module can raise. \<open>IOError e\<close> is \<open>raise IOError(exc)\<close> for a caught
  \<open>GLib.GError\<close> \<open>e\<close>; \<open>OSError m\<close> is \<open>raise OSError(m)\<close> (in Python 3 both are the class
  \<open>OSError\<close>). \<open>GError e\<close> is a backend error that nothing caught.
\<close>

datatype exn =
    GError gerror
  | IOError gerror
  | OSError string
  | PyException string
  | NameError string
  | AssertionError
  | AttributeError
  | KeyError
  | TypeError
  | ValueError
  | IndexError
  | UnicodeEncodeError
  | UnicodeDecodeError

subsection \<open>Substring tests and \<open>split\<close>\<close>

definition startswith :: "'a list \<Rightarrow> 'a list \<Rightarrow> bool" where
  "startswith s p = (take (length p) s = p)"

text \<open>\<open>contains sub s\<close> is Python's \<open>sub in s\<close>.\<close>

fun contains :: "'a list \<Rightarrow> 'a list \<Rightarrow> bool" where
  "contains sub [] = (sub = [])"
| "contains sub (c # cs) = (startswith (c # cs) sub \<or> contains sub cs)"

text \<open>
  \<open>s.split(sep)\<close> for a non-empty separator: scan from the left; where \<open>sep\<close> starts, close
  the current chunk and jump behind the separator, otherwise the character joins the
  current chunk. The result is never empty.
\<close>

function split_on :: "'a list \<Rightarrow> 'a list \<Rightarrow> 'a list list" where
  "split_on sep [] = [[]]"
| "split_on sep (c # cs) =
     (if sep \<noteq> [] \<and> startswith (c # cs) sep
      then [] # split_on sep (drop (length sep) (c # cs))
      else (case split_on sep cs of
              [] \<Rightarrow> [[c]]
            | h # t \<Rightarrow> (c # h) # t))"
  by pat_completeness auto
termination
  by (relation "measure (\<lambda>(sep, s). length s)") (auto simp: neq_Nil_conv)

text \<open>\<open>s.split(sep)\<close> raises \<open>ValueError\<close> on an empty separator.\<close>

definition py_split :: "'a list \<Rightarrow> 'a list \<Rightarrow> exn + 'a list list" where
  "py_split s sep = (if sep = [] then Inl ValueError else Inr (split_on sep s))"

text \<open>\<open>bs.rstrip(chars)\<close>: drop the trailing elements that are in \<open>chars\<close>.\<close>

definition rstrip :: "'a list \<Rightarrow> 'a list \<Rightarrow> 'a list" where
  "rstrip chars s = rev (dropWhile (\<lambda>c. c \<in> set chars) (rev s))"

subsection \<open>The UTF-8 codec\<close>

definition is_surrogate :: "nat \<Rightarrow> bool" where
  "is_surrogate c = (0xD800 \<le> c \<and> c \<le> 0xDFFF)"

text \<open>\<open>s.encode('utf-8')\<close> with \<open>errors='strict'\<close>: a surrogate cannot be encoded.\<close>

definition utf8_encode_cp :: "nat \<Rightarrow> exn + bytes" where
  "utf8_encode_cp c =
     (if c < 0x80 then Inr [c]
      else if c < 0x800 then Inr [0xC0 + c div 64, 0x80 + c mod 64]
      else if c < 0x10000 then
        (if is_surrogate c then Inl UnicodeEncodeError
         else Inr [0xE0 + c div 4096, 0x80 + (c div 64) mod 64, 0x80 + c mod 64])
      else Inr [0xF0 + c div 262144, 0x80 + (c div 4096) mod 64,
                0x80 + (c div 64) mod 64, 0x80 + c mod 64])"

fun str_encode :: "ustr \<Rightarrow> exn + bytes" where
  "str_encode [] = Inr []"
| "str_encode (c # cs) =
     (case utf8_encode_cp c of
        Inl e \<Rightarrow> Inl e
      | Inr b \<Rightarrow> (case str_encode cs of Inl e \<Rightarrow> Inl e | Inr bs \<Rightarrow> Inr (b @ bs)))"

definition is_cont :: "nat \<Rightarrow> bool" where
  "is_cont b = (0x80 \<le> b \<and> b \<le> 0xBF)"

text \<open>
  The byte that may follow the lead byte of a three- or four-byte sequence: the ranges
  exclude overlong forms, surrogates and code points above \<open>0x10FFFF\<close>.
\<close>

definition second_ok :: "nat \<Rightarrow> nat \<Rightarrow> bool" where
  "second_ok b0 b1 =
     (if b0 = 0xE0 then 0xA0 \<le> b1 \<and> b1 \<le> 0xBF
      else if b0 = 0xED then 0x80 \<le> b1 \<and> b1 \<le> 0x9F
      else if b0 = 0xF0 then 0x90 \<le> b1 \<and> b1 \<le> 0xBF
      else if b0 = 0xF4 then 0x80 \<le> b1 \<and> b1 \<le> 0x8F
      else is_cont b1)"

text \<open>
  One step of the decoder on a non-empty input: the code point read, or \<open>None\<close> for an
  ill-formed sequence, and the number of bytes used. An ill-formed sequence uses its
  longest well-formed start (one byte when the lead byte itself is wrong), as CPython's
  decoder reports it to the error handler.
\<close>

fun utf8_step :: "bytes \<Rightarrow> nat option \<times> nat" where
  "utf8_step [] = (None, 1)"
| "utf8_step (b0 # bs) =
     (if b0 < 0x80 then (Some b0, 1)
      else if 0xC2 \<le> b0 \<and> b0 \<le> 0xDF then
        (case bs of
           [] \<Rightarrow> (None, 1)
         | b1 # _ \<Rightarrow>
             if is_cont b1 then (Some ((b0 - 0xC0) * 64 + (b1 - 0x80)), 2) else (None, 1))
      else if 0xE0 \<le> b0 \<and> b0 \<le> 0xEF then
        (case bs of
           [] \<Rightarrow> (None, 1)
         | b1 # bs1 \<Rightarrow>
             if \<not> second_ok b0 b1 then (None, 1)
             else (case bs1 of
                     [] \<Rightarrow> (None, 2)
                   | b2 # _ \<Rightarrow>
                       if is_cont b2
                       then (Some ((b0 - 0xE0) * 4096 + (b1 - 0x80) * 64 + (b2 - 0x80)), 3)
                       else (None, 2)))
      else if 0xF0 \<le> b0 \<and> b0 \<le> 0xF4 then
        (case bs of
           [] \<Rightarrow> (None, 1)
         | b1 # bs1 \<Rightarrow>
             if \<not> second_ok b0 b1 then (None, 1)
             else (case bs1 of
                     [] \<Rightarrow> (None, 2)
                   | b2 # bs2 \<Rightarrow>
                       if \<not> is_cont b2 then (None, 2)
                       else (case bs2 of
                               [] \<Rightarrow> (None, 3)
                             | b3 # _ \<Rightarrow>
                                 if is_cont b3
                                 then (Some ((b0 - 0xF0) * 262144 + (b1 - 0x80) * 4096
                                             + (b2 - 0x80) * 64 + (b3 - 0x80)), 4)
                                 else (None, 3))))
      else (None, 1))"

function utf8_scan :: "bytes \<Rightarrow> nat option list" where
  "utf8_scan bs =
     (if bs = [] then []
      else fst (utf8_step bs) # utf8_scan (drop (snd (utf8_step bs)) bs))"
  by pat_completeness auto
termination
proof (relation "measure length")
  show "wf (measure length)" by simp
next
  fix bs :: bytes
  assume ne: "bs \<noteq> []"
  have "0 < snd (utf8_step bs)"
    by (cases bs) (auto split: list.splits)
  with ne show "(drop (snd (utf8_step bs)) bs, bs) \<in> measure length"
    by (cases bs) auto
qed

declare utf8_scan.simps [simp del]

text \<open>\<open>bs.decode('utf-8')\<close>: \<open>errors='strict'\<close> raises at the first ill-formed sequence.\<close>

definition bytes_decode :: "bytes \<Rightarrow> exn + ustr" where
  "bytes_decode bs =
     (if None \<in> set (utf8_scan bs) then Inl UnicodeDecodeError
      else Inr (map the (utf8_scan bs)))"

text \<open>\<open>bs.decode('utf-8', 'replace')\<close> puts U+FFFD for each ill-formed sequence.\<close>

definition bytes_decode_replace :: "bytes \<Rightarrow> ustr" where
  "bytes_decode_replace bs =
     map (\<lambda>r. case r of Some c \<Rightarrow> c | None \<Rightarrow> 0xFFFD) (utf8_scan bs)"

subsection \<open>\<open>urllib.parse.quote\<close> and \<open>urllib.parse.unquote\<close>\<close>

text \<open>
  The standard library's functions, with the defaults \<open>fs.py\<close> calls them with:
  \<open>quote(string, safe='/', encoding='utf-8', errors='strict')\<close> and
  \<open>unquote(string, encoding='utf-8', errors='replace')\<close>.
\<close>

definition ALWAYS_SAFE_BYTES :: bytes where
  "ALWAYS_SAFE_BYTES =
     lit ''ABCDEFGHIJKLMNOPQRSTUVWXYZabcdefghijklmnopqrstuvwxyz0123456789_.-~''"

text \<open>\<open>'%{:02X}'.format(b)\<close> for a byte \<open>b\<close>, that is for \<open>b < 256\<close>: two digits.\<close>

definition hex_upper :: "nat \<Rightarrow> nat" where
  "hex_upper d = lit ''0123456789ABCDEF'' ! d"

definition format_02X :: "nat \<Rightarrow> ustr" where
  "format_02X b = lit ''%'' @ [hex_upper (b div 16), hex_upper (b mod 16)]"

text \<open>\<open>_Quoter.__missing__\<close>: a safe byte stands for itself, any other is escaped.\<close>

definition quoter :: "bytes \<Rightarrow> nat \<Rightarrow> ustr" where
  "quoter safe b = (if b \<in> set (ALWAYS_SAFE_BYTES @ safe) then [b] else format_02X b)"

definition quote_from_bytes :: "bytes \<Rightarrow> ustr \<Rightarrow> exn + ustr" where
  "quote_from_bytes bs safe =
     (if bs = [] then Inr []
      else
        let safe' = filter (\<lambda>c. c < 128) safe in
        if rstrip (ALWAYS_SAFE_BYTES @ safe') bs = [] then bytes_decode bs
        else Inr (concat (map (quoter safe') bs)))"

definition quote :: "ustr \<Rightarrow> exn + ustr" where
  "quote string =
     (if string = [] then Inr string
      else (case str_encode string of
              Inl e \<Rightarrow> Inl e
            | Inr bs \<Rightarrow> quote_from_bytes bs (lit ''/'')))"

text \<open>
  \<open>_hextobyte\<close> maps each pair of hexadecimal digits, in either case, to its byte:
  \<open>hexval\<close> is the value of one digit of \<open>_hexdig = '0123456789ABCDEFabcdef'\<close>.
\<close>

definition hexval :: "nat \<Rightarrow> nat option" where
  "hexval c =
     map_of (zip (lit ''0123456789ABCDEFabcdef'')
                 [0, 1, 2, 3, 4, 5, 6, 7, 8, 9, 10, 11, 12, 13, 14, 15,
                  10, 11, 12, 13, 14, 15]) c"

text \<open>
  The body of the loop of \<open>unquote_to_bytes\<close> for one item behind a \<open>%\<close>: the byte of
  \<open>item[:2]\<close> and \<open>item[2:]\<close>, or on \<open>KeyError\<close> the \<open>%\<close> and the item as they were.
\<close>

definition unquote_item :: "bytes \<Rightarrow> bytes" where
  "unquote_item item =
     (case item of
        a # b # rest \<Rightarrow>
          (case (hexval a, hexval b) of
             (Some x, Some y) \<Rightarrow> [16 * x + y] @ rest
           | _ \<Rightarrow> lit ''%'' @ item)
      | _ \<Rightarrow> lit ''%'' @ item)"

definition unquote_to_bytes :: "ustr \<Rightarrow> exn + bytes" where
  "unquote_to_bytes string =
     (if string = [] then Inr []
      else (case str_encode string of
              Inl e \<Rightarrow> Inl e
            | Inr bs \<Rightarrow>
                let bits = split_on (lit ''%'') bs in
                if length bits = 1 then Inr bs
                else Inr (concat (hd bits # map unquote_item (tl bits)))))"

text \<open>
  \<open>unquote\<close> cuts the string at the matches of \<open>[\\x00-\\x7f]+\<close>, unquotes and decodes
  each ASCII run, and keeps what lies between them. \<open>ascii_runs\<close> is that cut: the
  maximal runs, each marked as ASCII or not.
\<close>

fun ascii_runs :: "ustr \<Rightarrow> (bool \<times> ustr) list" where
  "ascii_runs [] = []"
| "ascii_runs (c # cs) =
     (case ascii_runs cs of
        [] \<Rightarrow> [(c < 128, [c])]
      | (a, r) # rest \<Rightarrow>
          if a = (c < 128) then (a, c # r) # rest else (c < 128, [c]) # (a, r) # rest)"

fun unquote_parts :: "(bool \<times> ustr) list \<Rightarrow> exn + ustr" where
  "unquote_parts [] = Inr []"
| "unquote_parts ((a, r) # rest) =
     (case (if a then map_sum id bytes_decode_replace (unquote_to_bytes r) else Inr r) of
        Inl e \<Rightarrow> Inl e
      | Inr p \<Rightarrow> (case unquote_parts rest of Inl e \<Rightarrow> Inl e | Inr ps \<Rightarrow> Inr (p @ ps)))"

definition unquote :: "ustr \<Rightarrow> exn + ustr" where
  "unquote string =
     (if \<not> contains (lit ''%'') string then Inr string
      else unquote_parts (ascii_runs string))"

section \<open>The URI codec of \<open>GioFileSystem\<close>\<close>

definition safe :: "ustr \<Rightarrow> exn + ustr" where
  "safe uri =
     (if \<not> contains (lit ''://'') uri
      then (case quote uri of Inl e \<Rightarrow> Inl e | Inr q \<Rightarrow> Inr (lit ''file://'' @ q))
      else Inr uri)"

definition unsafe :: "ustr \<Rightarrow> exn + ustr" where
  "unsafe uri =
     (if \<not> contains (lit ''://'') uri then Inr uri
      else if \<not> startswith uri (lit ''file://'')
      then Inl (PyException ''TARGET URI SHOULD BE A LOCAL FILE'')
      else unquote (drop (length (lit ''file://'')) uri))"

section \<open>The Gio backend\<close>

text \<open>
  \<open>fs.py\<close> reaches storage only through \<open>Gio.File\<close> and the streams it hands out. The
  backend is an in-memory model of that interface for regular files: what each primitive
  returns, which \<open>GLib.GError\<close> it raises, and a trace of the primitives called.
  \<open>new_for_uri\<close> is Gio's resolution of a URI to the resource it names; it is a
  parameter of the model. A stream is an object with an identity (its key in \<open>streams\<close>):
  the input and output sides of a \<open>GFileIOStream\<close> are objects of their own that share
  the position of the stream that owns them.
\<close>

type_synonym resource = ustr

datatype seek_type = G_SEEK_CUR | G_SEEK_SET | G_SEEK_END

text \<open>
  A \<open>GFileInputStream\<close> and a \<open>GFileIOStream\<close> have a target, a position and a closed
  flag; the latter also has the identities of its input and its output side. A side has
  the identity of its owner and a closed flag of its own.
\<close>

datatype stream =
    FileInputStream resource nat bool
  | FileIOStream resource nat bool nat nat
  | InputSide nat bool
  | OutputSide nat bool

datatype call =
    QueryInfo resource
  | QueryExists resource
  | Read resource
  | OpenReadwrite resource
  | CreateReadwrite resource
  | GetInputStream nat
  | GetOutputStream nat
  | Seek nat int seek_type
  | Tell nat
  | ReadBytes nat nat
  | Close nat
  | Move resource resource
  | Copy resource resource

record gio =
  new_for_uri :: "ustr \<Rightarrow> resource"
  files :: "resource \<rightharpoonup> bytes"
  streams :: "nat \<rightharpoonup> stream"
  next_id :: nat
  calls :: "call list"

text \<open>
  A computation runs on the backend and either raises or returns; the backend it leaves
  behind is returned in both cases.
\<close>

type_synonym 'a io = "gio \<Rightarrow> (exn + 'a) \<times> gio"

definition io_return :: "'a \<Rightarrow> 'a io" where
  "io_return x = (\<lambda>g. (Inr x, g))"

definition io_raise :: "exn \<Rightarrow> 'a io" where
  "io_raise e = (\<lambda>g. (Inl e, g))"

definition io_bind :: "'a io \<Rightarrow> ('a \<Rightarrow> 'b io) \<Rightarrow> 'b io" where
  "io_bind m f = (\<lambda>g. case m g of (Inl e, g') \<Rightarrow> (Inl e, g') | (Inr x, g') \<Rightarrow> f x g')"

text \<open>\<open>try: ... except GLib.GError as exc: raise IOError(exc)\<close>\<close>

definition except_GError :: "'a io \<Rightarrow> 'a io" where
  "except_GError m =
     (\<lambda>g. case m g of (Inl (GError e), g') \<Rightarrow> (Inl (IOError e), g') | r \<Rightarrow> r)"

definition log_call :: "call \<Rightarrow> unit io" where
  "log_call c = (\<lambda>g. (Inr (), g\<lparr>calls := calls g @ [c]\<rparr>))"

definition content :: "gio \<Rightarrow> resource \<Rightarrow> bytes" where
  "content g r = (case files g r of Some bs \<Rightarrow> bs | None \<Rightarrow> [])"

text \<open>
  The stream that holds the position of stream \<open>h\<close>, with its target and position:
  \<open>h\<close> itself, or its owner when \<open>h\<close> is one side of a \<open>GFileIOStream\<close>.
\<close>

definition cursor :: "gio \<Rightarrow> nat \<Rightarrow> (nat \<times> resource \<times> nat) option" where
  "cursor g h =
     (let own = (case streams g h of
                   Some (InputSide ow _) \<Rightarrow> ow
                 | Some (OutputSide ow _) \<Rightarrow> ow
                 | _ \<Rightarrow> h)
      in case streams g own of
           Some (FileInputStream r p _) \<Rightarrow> Some (own, r, p)
         | Some (FileIOStream r p _ _ _) \<Rightarrow> Some (own, r, p)
         | _ \<Rightarrow> None)"

definition is_closed :: "gio \<Rightarrow> nat \<Rightarrow> bool" where
  "is_closed g h =
     (case streams g h of
        Some (FileInputStream _ _ c) \<Rightarrow> c
      | Some (FileIOStream _ _ c _ _) \<Rightarrow> c
      | Some (InputSide _ c) \<Rightarrow> c
      | Some (OutputSide _ c) \<Rightarrow> c
      | None \<Rightarrow> False)"

definition set_position :: "nat \<Rightarrow> nat \<Rightarrow> gio \<Rightarrow> gio" where
  "set_position own p g =
     (case streams g own of
        Some (FileInputStream r _ c) \<Rightarrow> g\<lparr>streams := (streams g)(own \<mapsto> FileInputStream r p c)\<rparr>
      | Some (FileIOStream r _ c i ou) \<Rightarrow>
          g\<lparr>streams := (streams g)(own \<mapsto> FileIOStream r p c i ou)\<rparr>
      | _ \<Rightarrow> g)"

definition set_closed :: "nat \<Rightarrow> gio \<Rightarrow> gio" where
  "set_closed h g =
     (case streams g h of
        Some (FileInputStream r p _) \<Rightarrow> g\<lparr>streams := (streams g)(h \<mapsto> FileInputStream r p True)\<rparr>
      | Some (FileIOStream r p _ i ou) \<Rightarrow>
          g\<lparr>streams := (streams g)(h \<mapsto> FileIOStream r p True i ou)\<rparr>
      | Some (InputSide ow _) \<Rightarrow> g\<lparr>streams := (streams g)(h \<mapsto> InputSide ow True)\<rparr>
      | Some (OutputSide ow _) \<Rightarrow> g\<lparr>streams := (streams g)(h \<mapsto> OutputSide ow True)\<rparr>
      | None \<Rightarrow> g)"

text \<open>A new \<open>GFileInputStream\<close> on \<open>r\<close>, at position 0.\<close>

definition new_input_stream :: "resource \<Rightarrow> nat io" where
  "new_input_stream r =
     (\<lambda>g. (Inr (next_id g),
            g\<lparr>streams := (streams g)(next_id g \<mapsto> FileInputStream r 0 False),
              next_id := next_id g + 1\<rparr>))"

text \<open>A new \<open>GFileIOStream\<close> on \<open>r\<close>, at position 0, with its two sides.\<close>

definition new_io_stream :: "resource \<Rightarrow> nat io" where
  "new_io_stream r =
     (\<lambda>g. let h = next_id g in
          (Inr h,
           g\<lparr>streams := (streams g)(h \<mapsto> FileIOStream r 0 False (h + 1) (h + 2),
                                      h + 1 \<mapsto> InputSide h False,
                                      h + 2 \<mapsto> OutputSide h False),
             next_id := h + 3\<rparr>))"

text \<open>\<open>gfile.query_info(FILE_ATTRIBUTE_STANDARD_SIZE, NONE).get_size()\<close>\<close>

definition query_info_size :: "resource \<Rightarrow> nat io" where
  "query_info_size r =
     io_bind (log_call (QueryInfo r)) (\<lambda>_ g.
       case files g r of
         None \<Rightarrow> (Inl (GError G_IO_ERROR_NOT_FOUND), g)
       | Some bs \<Rightarrow> (Inr (length bs), g))"

definition query_exists :: "resource \<Rightarrow> bool io" where
  "query_exists r =
     io_bind (log_call (QueryExists r)) (\<lambda>_ g. (Inr (files g r \<noteq> None), g))"

text \<open>\<open>gfile.read()\<close>\<close>

definition file_read :: "resource \<Rightarrow> nat io" where
  "file_read r =
     io_bind (log_call (Read r)) (\<lambda>_ g.
       case files g r of
         None \<Rightarrow> (Inl (GError G_IO_ERROR_NOT_FOUND), g)
       | Some _ \<Rightarrow> new_input_stream r g)"

definition open_readwrite :: "resource \<Rightarrow> nat io" where
  "open_readwrite r =
     io_bind (log_call (OpenReadwrite r)) (\<lambda>_ g.
       case files g r of
         None \<Rightarrow> (Inl (GError G_IO_ERROR_NOT_FOUND), g)
       | Some _ \<Rightarrow> new_io_stream r g)"

definition create_readwrite :: "resource \<Rightarrow> nat io" where
  "create_readwrite r =
     io_bind (log_call (CreateReadwrite r)) (\<lambda>_ g.
       case files g r of
         Some _ \<Rightarrow> (Inl (GError G_IO_ERROR_EXISTS), g)
       | None \<Rightarrow> new_io_stream r (g\<lparr>files := (files g)(r \<mapsto> [])\<rparr>))"

definition get_input_stream :: "nat \<Rightarrow> nat io" where
  "get_input_stream h =
     io_bind (log_call (GetInputStream h)) (\<lambda>_ g.
       case streams g h of
         Some (FileIOStream _ _ _ i _) \<Rightarrow> (Inr i, g)
       | _ \<Rightarrow> (Inl AttributeError, g))"

definition get_output_stream :: "nat \<Rightarrow> nat io" where
  "get_output_stream h =
     io_bind (log_call (GetOutputStream h)) (\<lambda>_ g.
       case streams g h of
         Some (FileIOStream _ _ _ _ ou) \<Rightarrow> (Inr ou, g)
       | _ \<Rightarrow> (Inl AttributeError, g))"

text \<open>\<open>stream.seek(offset, type)\<close> of \<open>GSeekable\<close>\<close>

definition stream_seek :: "nat \<Rightarrow> int \<Rightarrow> seek_type \<Rightarrow> unit io" where
  "stream_seek h offset whence =
     io_bind (log_call (Seek h offset whence)) (\<lambda>_ g.
       case cursor g h of
         None \<Rightarrow> (Inl AttributeError, g)
       | Some (own, r, p) \<Rightarrow>
           if is_closed g h then (Inl (GError G_IO_ERROR_CLOSED), g)
           else
             let base = (case whence of
                           G_SEEK_SET \<Rightarrow> 0
                         | G_SEEK_CUR \<Rightarrow> int p
                         | G_SEEK_END \<Rightarrow> int (length (content g r)))
             in if base + offset < 0 then (Inl (GError G_IO_ERROR_INVALID_ARGUMENT), g)
                else (Inr (), set_position own (nat (base + offset)) g))"

definition stream_tell :: "nat \<Rightarrow> nat io" where
  "stream_tell h =
     io_bind (log_call (Tell h)) (\<lambda>_ g.
       case cursor g h of
         None \<Rightarrow> (Inl AttributeError, g)
       | Some (own, r, p) \<Rightarrow> (Inr p, g))"

text \<open>
  \<open>stream.read_bytes(count).get_data()\<close> of a \<open>GInputStream\<close>: at most \<open>count\<close> bytes
  from the position on, which moves behind them. Only an input stream has the method.
\<close>

definition is_input_stream :: "gio \<Rightarrow> nat \<Rightarrow> bool" where
  "is_input_stream g h =
     (case streams g h of
        Some (FileInputStream _ _ _) \<Rightarrow> True
      | Some (InputSide _ _) \<Rightarrow> True
      | _ \<Rightarrow> False)"

definition read_bytes :: "nat \<Rightarrow> nat \<Rightarrow> bytes io" where
  "read_bytes h count =
     io_bind (log_call (ReadBytes h count)) (\<lambda>_ g.
       if \<not> is_input_stream g h then (Inl AttributeError, g)
       else
         (case cursor g h of
            None \<Rightarrow> (Inl AttributeError, g)
          | Some (own, r, p) \<Rightarrow>
              if is_closed g h then (Inl (GError G_IO_ERROR_CLOSED), g)
              else
                let d = take count (drop p (content g r))
                in (Inr d, set_position own (p + length d) g)))"

text \<open>\<open>stream.close()\<close>: closing a closed stream is not an error.\<close>

definition stream_close :: "nat \<Rightarrow> unit io" where
  "stream_close h =
     io_bind (log_call (Close h)) (\<lambda>_ g.
       case streams g h of
         None \<Rightarrow> (Inl AttributeError, g)
       | Some _ \<Rightarrow> (Inr (), set_closed h g))"

text \<open>\<open>old.move(new, Gio.FileCopyFlags.NONE)\<close>: no overwriting.\<close>

definition file_move :: "resource \<Rightarrow> resource \<Rightarrow> unit io" where
  "file_move src dst =
     io_bind (log_call (Move src dst)) (\<lambda>_ g.
       case files g src of
         None \<Rightarrow> (Inl (GError G_IO_ERROR_NOT_FOUND), g)
       | Some bs \<Rightarrow>
           if files g dst \<noteq> None then (Inl (GError G_IO_ERROR_EXISTS), g)
           else (Inr (), g\<lparr>files := (files g)(src := None, dst \<mapsto> bs)\<rparr>))"

text \<open>\<open>old.copy(new, Gio.FileCopyFlags.ALL_METADATA)\<close>: no overwriting either.\<close>

definition file_copy :: "resource \<Rightarrow> resource \<Rightarrow> unit io" where
  "file_copy src dst =
     io_bind (log_call (Copy src dst)) (\<lambda>_ g.
       case files g src of
         None \<Rightarrow> (Inl (GError G_IO_ERROR_NOT_FOUND), g)
       | Some bs \<Rightarrow>
           if files g dst \<noteq> None then (Inl (GError G_IO_ERROR_EXISTS), g)
           else (Inr (), g\<lparr>files := (files g)(dst \<mapsto> bs)\<rparr>))"

section \<open>\<open>GioFileAdapter\<close>: the byte stream\<close>

text \<open>
  The attributes \<open>__init__\<close> sets. \<open>gfd\<close>, \<open>gin\<close> and \<open>gout\<close> hold a stream object or
  \<open>None\<close>; \<open>closed\<close> is the flag of \<open>io.IOBase\<close>.
\<close>

record GioFileAdapter =
  gfile :: resource
  mode :: string
  size_attr :: nat
  gfd :: "nat option"
  gin :: "nat option"
  gout :: "nat option"
  closed :: bool

definition SEEK_SET :: int where "SEEK_SET = 0"
definition SEEK_CUR :: int where "SEEK_CUR = 1"
definition SEEK_END :: int where "SEEK_END = 2"

text \<open>
  \<open>seek\<close> looks \<open>whence\<close> up in a dictionary (\<open>KeyError\<close> when it is not there) and calls
  \<open>self.gfd.seek\<close>, which is an \<open>AttributeError\<close> when \<open>gfd\<close> is \<open>None\<close>.
\<close>

definition GioFileAdapter_seek :: "GioFileAdapter \<Rightarrow> int \<Rightarrow> int \<Rightarrow> unit io" where
  "GioFileAdapter_seek self offset whence =
     (case map_of [(SEEK_CUR, G_SEEK_CUR), (SEEK_END, G_SEEK_END), (SEEK_SET, G_SEEK_SET)] whence of
        None \<Rightarrow> io_raise KeyError
      | Some w \<Rightarrow>
          (case gfd self of
             None \<Rightarrow> io_raise AttributeError
           | Some h \<Rightarrow> stream_seek h offset w))"

definition GioFileAdapter_init :: "resource \<Rightarrow> string \<Rightarrow> GioFileAdapter io" where
  "GioFileAdapter_init gf m =
     io_bind (if CHR ''w'' \<in> set m then io_return 0
              else except_GError (query_info_size gf)) (\<lambda>sz.
     io_bind (if CHR ''r'' \<in> set m then
                io_bind (file_read gf) (\<lambda>h. io_return (Some h, Some h, None))
              else if CHR ''w'' \<in> set m \<or> CHR ''a'' \<in> set m then
                io_bind (query_exists gf) (\<lambda>ex.
                io_bind (if ex then open_readwrite gf else create_readwrite gf) (\<lambda>fd.
                io_bind (get_input_stream fd) (\<lambda>i.
                io_bind (get_output_stream fd) (\<lambda>ou.
                io_return (Some fd, Some i, Some ou)))))
              else io_return (None, None, None)) (\<lambda>(fd, i, ou).
     let self = \<lparr>gfile = gf, mode = m, size_attr = sz,
                 gfd = fd, gin = i, gout = ou, closed = False\<rparr> in
     io_bind (if CHR ''a'' \<in> set m then GioFileAdapter_seek self 0 SEEK_END
              else io_return ()) (\<lambda>_.
     io_return self)))"

definition GioFileAdapter_readable :: "GioFileAdapter \<Rightarrow> bool" where
  "GioFileAdapter_readable self = True"

definition GioFileAdapter_writable :: "GioFileAdapter \<Rightarrow> bool" where
  "GioFileAdapter_writable self = (CHR ''w'' \<in> set (mode self))"

text \<open>
  \<open>read\<close> asks \<open>self.readable()\<close>, a method call that Python resolves on the object:
  \<open>read_via rd\<close> is the body of \<open>read\<close> with \<open>rd\<close> the method it resolves to. On a
  \<open>GioFileAdapter\<close> that is the \<open>readable\<close> above.
\<close>

definition read_via ::
    "(GioFileAdapter \<Rightarrow> bool) \<Rightarrow> GioFileAdapter \<Rightarrow> int \<Rightarrow> bytes io" where
  "read_via rd self n =
     (if \<not> rd self then io_raise (OSError ''File is not readable'')
      else
        let n' = (if n < 0 then int (size_attr self) else n) in
        case gin self of
          None \<Rightarrow> io_raise AttributeError
        | Some h \<Rightarrow> read_bytes h (nat n'))"

definition GioFileAdapter_read :: "GioFileAdapter \<Rightarrow> int \<Rightarrow> bytes io" where
  "GioFileAdapter_read = read_via GioFileAdapter_readable"

definition GioFileAdapter_readall :: "GioFileAdapter \<Rightarrow> bytes io" where
  "GioFileAdapter_readall self = GioFileAdapter_read self (- 1)"

definition GioFileAdapter_readlines :: "GioFileAdapter \<Rightarrow> bytes list io" where
  "GioFileAdapter_readlines self =
     io_bind (GioFileAdapter_readall self) (\<lambda>d.
     io_return (map (\<lambda>x. x @ lit ''\<newline>'') (split_on (lit ''\<newline>'') d)))"

definition GioFileAdapter_tell :: "GioFileAdapter \<Rightarrow> nat io" where
  "GioFileAdapter_tell self =
     (case gin self of
        None \<Rightarrow> io_raise AttributeError
      | Some h \<Rightarrow> stream_tell h)"

text \<open>
  \<open>close\<close>: \<open>flush\<close> does nothing, \<open>super().close()\<close> sets \<open>closed\<close>; then the streams.
  \<open>if self.gin:\<close> is true for every stream object; \<open>self.gfd is not self.gin\<close> compares
  identities.
\<close>

definition GioFileAdapter_close :: "GioFileAdapter \<Rightarrow> GioFileAdapter io" where
  "GioFileAdapter_close self =
     (let self' = self\<lparr>closed := True\<rparr> in
      io_bind (case gin self' of Some i \<Rightarrow> stream_close i | None \<Rightarrow> io_return ()) (\<lambda>_.
      io_bind (case gout self' of Some ou \<Rightarrow> stream_close ou | None \<Rightarrow> io_return ()) (\<lambda>_.
      io_bind (if gfd self' \<noteq> gin self'
               then (case gfd self' of
                       Some fd \<Rightarrow> stream_close fd
                     | None \<Rightarrow> io_raise AttributeError)
               else io_return ()) (\<lambda>_.
      io_return self'))))"

section \<open>\<open>GioUTF8FileAdapter\<close>: the text stream\<close>

record GioUTF8FileAdapter =
  raw :: GioFileAdapter

definition GioUTF8FileAdapter_readall :: "GioUTF8FileAdapter \<Rightarrow> ustr io" where
  "GioUTF8FileAdapter_readall self =
     io_bind (GioFileAdapter_readall (raw self)) (\<lambda>r g.
       case bytes_decode r of Inl e \<Rightarrow> (Inl e, g) | Inr t \<Rightarrow> (Inr t, g))"

text \<open>
  \<open>os.linesep\<close> is a constant of the platform and the first argument here; on POSIX it
  is \<open>"\n"\<close>.
\<close>

definition posix_linesep :: ustr where
  "posix_linesep = lit ''\<newline>''"

definition GioUTF8FileAdapter_readlines :: "ustr \<Rightarrow> GioUTF8FileAdapter \<Rightarrow> ustr list io" where
  "GioUTF8FileAdapter_readlines linesep self =
     io_bind (GioUTF8FileAdapter_readall self) (\<lambda>t.
     case py_split t linesep of
       Inl e \<Rightarrow> io_raise e
     | Inr xs \<Rightarrow>
         let lines = map (\<lambda>x. x @ lit ''\<newline>'') xs in
         if lines = [] then io_raise IndexError
         else if last lines = lit ''\<newline>'' then io_return (butlast lines)
         else io_return lines)"

section \<open>\<open>GioFileSystem\<close>: the facade\<close>

datatype file_object = Raw GioFileAdapter | UTF8 GioUTF8FileAdapter

definition GioFileSystem_open :: "ustr \<Rightarrow> string \<Rightarrow> file_object io" where
  "GioFileSystem_open uri m =
     except_GError (\<lambda>g.
       io_bind (GioFileAdapter_init (new_for_uri g uri) m) (\<lambda>a.
         if CHR ''b'' \<in> set m then io_return (Raw a)
         else io_return (UTF8 \<lparr>raw = a\<rparr>)) g)"

text \<open>
  \<open>assert c\<close> is \<open>if __debug__: if not c: raise AssertionError\<close>. \<open>__debug__\<close> is a
  constant of the interpreter, true unless Python runs with \<open>-O\<close> (or
  \<open>PYTHONOPTIMIZE\<close>), and the first argument here. \<open>except GLib.GError\<close> does not catch
  an \<open>AssertionError\<close>.
\<close>

definition GioFileSystem_rename :: "bool \<Rightarrow> ustr \<Rightarrow> ustr \<Rightarrow> unit io" where
  "GioFileSystem_rename debug old_url new_url =
     except_GError (\<lambda>g.
       let old = new_for_uri g old_url; new = new_for_uri g new_url in
       if debug \<and> \<not> (\<not> old = new) then (Inl AssertionError, g)
       else file_move old new g)"

text \<open>
  Names are looked up when the statement runs: in the local variables of the call, then
  in the module's globals (and the builtins, none of which is a URI). An object of the
  module that is not a \<open>str\<close> is \<open>NotStr\<close>; a name bound nowhere raises \<open>NameError\<close>.
\<close>

datatype pyobj = Str ustr | NotStr

definition module_globals :: "(string \<times> pyobj) list" where
  "module_globals =
     map (\<lambda>n. (n, NotStr))
       [''io'', ''logging'', ''os'', ''urllib'', ''Gio'', ''GLib'', ''logger'',
        ''GioFileAdapter'', ''GioUTF8FileAdapter'', ''GioFileSystem'']"

definition load_name :: "(string \<times> pyobj) list \<Rightarrow> string \<Rightarrow> pyobj io" where
  "load_name locals n =
     (case map_of (locals @ module_globals) n of
        None \<Rightarrow> io_raise (NameError n)
      | Some v \<Rightarrow> io_return v)"

text \<open>\<open>Gio.File.new_for_uri(x)\<close> takes a \<open>str\<close>.\<close>

definition File_new_for_uri :: "pyobj \<Rightarrow> resource io" where
  "File_new_for_uri x =
     (case x of
        Str u \<Rightarrow> (\<lambda>g. (Inr (new_for_uri g u), g))
      | NotStr \<Rightarrow> io_raise TypeError)"

text \<open>The body of \<open>copy\<close> reads the name \<open>url\<close> twice.\<close>

definition GioFileSystem_copy :: "ustr \<Rightarrow> ustr \<Rightarrow> unit io" where
  "GioFileSystem_copy old_url new_url =
     (let locals = [(''self'', NotStr), (''old_url'', Str old_url), (''new_url'', Str new_url)] in
      except_GError (
        io_bind (load_name locals ''url'') (\<lambda>u1.
        io_bind (File_new_for_uri u1) (\<lambda>old.
        io_bind (load_name locals ''url'') (\<lambda>u2.
        io_bind (File_new_for_uri u2) (\<lambda>new.
        file_copy old new))))))"

text \<open>\<open>unsafe(safe(p))\<close>: an exception of \<open>safe\<close> ends the evaluation.\<close>

definition unsafe_of_safe :: "ustr \<Rightarrow> exn + ustr" where
  "unsafe_of_safe p = (case safe p of Inl e \<Rightarrow> Inl e | Inr u \<Rightarrow> unsafe u)"

section \<open>Example backends\<close>

text \<open>
  A backend with one regular file, \<open>file:///a\<close>, holding \<open>a\nb\n\<close>; URIs resolve to
  themselves, except that \<open>file:///d/../a\<close> names the same resource as \<open>file:///a\<close>.
\<close>

definition example_gio :: gio where
  "example_gio =
     \<lparr>new_for_uri = (\<lambda>u. if u = lit ''file:///d/../a'' then lit ''file:///a'' else u),
      files = [lit ''file:///a'' \<mapsto> lit ''a\<newline>b\<newline>''],
      streams = Map.empty,
      next_id = 0,
      calls = []\<rparr>"

text \<open>A local path with characters that need escaping: \<open>/tmp/a b%c\<close> and three non-ASCII ones.\<close>

definition example_path :: ustr where
  "example_path = lit ''/tmp/a b%c'' @ [0xE9, 0x20AC, 0x1F600]"

section \<open>The UTF-8 codec round trip\<close>

lemma utf8_step_two_bytes:
  assumes "0x80 \<le> c" "c < 0x800"
  shows "utf8_step ((0xC0 + c div 64) # (0x80 + c mod 64) # rest) = (Some c, 2)"
proof -
  define q d where "q = c div 64" and "d = c mod 64"
  have c: "c = q * 64 + d" and d: "d < 64" by (simp_all add: q_def d_def)
  have "utf8_step ((0xC0 + q) # (0x80 + d) # rest) = (Some c, 2)"
    using assms d unfolding c by (simp add: is_cont_def)
  then show ?thesis by (simp add: q_def d_def)
qed

lemma three_digits_base_64:
  fixes c :: nat
  obtains a b d where "c = a * 4096 + b * 64 + d" "b < 64" "d < 64"
    "c div 4096 = a" "(c div 64) mod 64 = b" "c mod 64 = d"
proof -
  define q d b a where "q = c div 64" and "d = c mod 64" and "b = q mod 64" and "a = q div 64"
  have e: "c div 4096 = a"
    unfolding a_def q_def by (simp add: div_mult2_eq [symmetric])
  have 1: "c = q * 64 + d" by (simp add: q_def d_def)
  have 2: "q = a * 64 + b" by (simp add: a_def b_def)
  have "c = a * 4096 + b * 64 + d" unfolding 1 2 by simp
  moreover have "b < 64" "d < 64" by (simp_all add: b_def d_def)
  moreover have "(c div 64) mod 64 = b" "c mod 64 = d" by (simp_all add: b_def d_def q_def)
  ultimately show ?thesis using e by (intro that)
qed

lemma utf8_step_three_bytes:
  assumes "0x800 \<le> c" "c < 0x10000" "\<not> is_surrogate c"
  shows "utf8_step ((0xE0 + c div 4096) # (0x80 + (c div 64) mod 64) # (0x80 + c mod 64) # rest)
         = (Some c, 3)"
proof -
  obtain a b d where c: "c = a * 4096 + b * 64 + d" and bd: "b < 64" "d < 64"
    and e: "c div 4096 = a" "(c div 64) mod 64 = b" "c mod 64 = d"
    by (rule three_digits_base_64)
  have "utf8_step ((0xE0 + a) # (0x80 + b) # (0x80 + d) # rest) = (Some c, 3)"
    using assms bd unfolding c by (auto simp: is_cont_def second_ok_def is_surrogate_def)
  then show ?thesis by (simp add: e)
qed

lemma four_digits_base_64:
  fixes c :: nat
  obtains a b1 b2 d where "c = a * 262144 + b1 * 4096 + b2 * 64 + d" "b1 < 64" "b2 < 64" "d < 64"
    "c div 262144 = a" "(c div 4096) mod 64 = b1" "(c div 64) mod 64 = b2" "c mod 64 = d"
proof -
  define q d b2 r b1 a where "q = c div 64" and "d = c mod 64" and "b2 = q mod 64"
    and "r = q div 64" and "b1 = r mod 64" and "a = r div 64"
  have r: "c div 4096 = r"
    unfolding r_def q_def by (simp add: div_mult2_eq [symmetric])
  have e: "c div 262144 = a"
    unfolding a_def r_def q_def by (simp add: div_mult2_eq [symmetric])
  have 1: "c = q * 64 + d" by (simp add: q_def d_def)
  have 2: "q = r * 64 + b2" by (simp add: r_def b2_def)
  have 3: "r = a * 64 + b1" by (simp add: a_def b1_def)
  have "c = a * 262144 + b1 * 4096 + b2 * 64 + d" unfolding 1 2 3 by simp
  moreover have "b1 < 64" "b2 < 64" "d < 64" by (simp_all add: b1_def b2_def d_def)
  moreover note e
  moreover have "(c div 4096) mod 64 = b1" unfolding r by (simp add: b1_def)
  moreover have "(c div 64) mod 64 = b2" "c mod 64 = d" by (simp_all add: b2_def d_def q_def)
  ultimately show ?thesis by (rule that)
qed

lemma utf8_step_four_bytes:
  assumes "0x10000 \<le> c" "c < 0x110000"
  shows "utf8_step ((0xF0 + c div 262144) # (0x80 + (c div 4096) mod 64)
                     # (0x80 + (c div 64) mod 64) # (0x80 + c mod 64) # rest)
         = (Some c, 4)"
proof -
  obtain a b1 b2 d where c: "c = a * 262144 + b1 * 4096 + b2 * 64 + d"
    and bd: "b1 < 64" "b2 < 64" "d < 64"
    and e: "c div 262144 = a" "(c div 4096) mod 64 = b1" "(c div 64) mod 64 = b2" "c mod 64 = d"
    by (rule four_digits_base_64)
  have "utf8_step ((0xF0 + a) # (0x80 + b1) # (0x80 + b2) # (0x80 + d) # rest) = (Some c, 4)"
    using assms bd unfolding c by (auto simp: is_cont_def second_ok_def)
  then show ?thesis by (simp add: e)
qed

lemma utf8_step_encode:
  assumes "c < 0x110000" "utf8_encode_cp c = Inr e"
  shows "utf8_step (e @ rest) = (Some c, length e)"
proof -
  consider "c < 0x80" | "0x80 \<le> c" "c < 0x800" | "0x800 \<le> c" "c < 0x10000"
    | "0x10000 \<le> c" by linarith
  then show ?thesis
  proof cases
    case 1
    with assms show ?thesis by (auto simp: utf8_encode_cp_def)
  next
    case 2
    with assms utf8_step_two_bytes [of c rest] show ?thesis by (auto simp: utf8_encode_cp_def)
  next
    case 3
    with assms utf8_step_three_bytes [of c rest] show ?thesis
      by (auto simp: utf8_encode_cp_def split: if_splits)
  next
    case 4
    with assms utf8_step_four_bytes [of c rest] show ?thesis by (auto simp: utf8_encode_cp_def)
  qed
qed

lemma utf8_encode_cp_nonempty: "utf8_encode_cp c = Inr e \<Longrightarrow> e \<noteq> []"
  by (auto simp: utf8_encode_cp_def split: if_splits)

lemma utf8_scan_Nil [simp]: "utf8_scan [] = []"
  by (simp add: utf8_scan.simps)

lemma utf8_scan_encode_cp:
  assumes "c < 0x110000" "utf8_encode_cp c = Inr e"
  shows "utf8_scan (e @ rest) = Some c # utf8_scan rest"
  using utf8_step_encode [OF assms, of rest] utf8_encode_cp_nonempty [OF assms(2)]
  by (subst utf8_scan.simps) simp

lemma utf8_scan_str_encode:
  "is_str s \<Longrightarrow> str_encode s = Inr bs \<Longrightarrow> utf8_scan bs = map Some s"
proof (induction s arbitrary: bs)
  case Nil
  then show ?case by simp
next
  case (Cons c cs)
  from Cons.prems(2) obtain e bs' where e: "utf8_encode_cp c = Inr e"
    and bs': "str_encode cs = Inr bs'" and bs: "bs = e @ bs'"
    by (auto split: sum.splits)
  from Cons.prems(1) have c: "c < 0x110000" and cs: "is_str cs"
    by (simp_all add: is_str_def)
  show ?case
    unfolding bs using utf8_scan_encode_cp [OF c e, of bs'] Cons.IH [OF cs bs'] by simp
qed

lemma bytes_decode_str_encode:
  "is_str s \<Longrightarrow> str_encode s = Inr bs \<Longrightarrow> bytes_decode bs = Inr s"
  by (auto simp: bytes_decode_def utf8_scan_str_encode comp_def)

lemma bytes_decode_replace_str_encode:
  "is_str s \<Longrightarrow> str_encode s = Inr bs \<Longrightarrow> bytes_decode_replace bs = s"
  by (simp add: bytes_decode_replace_def utf8_scan_str_encode comp_def)

lemma utf8_encode_cp_is_bytes:
  "c < 0x110000 \<Longrightarrow> utf8_encode_cp c = Inr e \<Longrightarrow> is_bytes e"
  by (auto simp: utf8_encode_cp_def is_bytes_def split: if_splits)

lemma str_encode_is_bytes:
  "is_str s \<Longrightarrow> str_encode s = Inr bs \<Longrightarrow> is_bytes bs"
proof (induction s arbitrary: bs)
  case Nil
  then show ?case by (simp add: is_bytes_def)
next
  case (Cons c cs)
  from Cons.prems(2) obtain e bs' where e: "utf8_encode_cp c = Inr e"
    and bs': "str_encode cs = Inr bs'" and bs: "bs = e @ bs'"
    by (auto split: sum.splits)
  from Cons.prems(1) have c: "c < 0x110000" and cs: "is_str cs"
    by (simp_all add: is_str_def)
  from utf8_encode_cp_is_bytes [OF c e] Cons.IH [OF cs bs'] show ?case
    by (simp add: bs is_bytes_def)
qed

lemma str_encode_ascii: "list_all (\<lambda>c. c < 128) s \<Longrightarrow> str_encode s = Inr s"
  by (induction s) (simp_all add: utf8_encode_cp_def)

lemma str_encode_encodable:
  "is_str s \<Longrightarrow> \<not> list_ex is_surrogate s \<Longrightarrow> \<exists>bs. str_encode s = Inr bs"
  by (induction s) (auto simp: utf8_encode_cp_def is_str_def)

lemma str_encode_surrogate:
  "list_ex is_surrogate s \<Longrightarrow> str_encode s = Inl UnicodeEncodeError"
  by (induction s) (auto simp: utf8_encode_cp_def is_surrogate_def split: sum.splits)

lemma safe_byte_facts:
  "b \<in> set (ALWAYS_SAFE_BYTES @ filter (\<lambda>c. c < 128) (lit ''/'')) \<Longrightarrow> b < 128 \<and> b \<noteq> 37"
  by (auto simp: ALWAYS_SAFE_BYTES_def lit_def)

lemma hex_upper_facts:
  assumes "d < 16"
  shows "hexval (hex_upper d) = Some d" "hex_upper d \<noteq> 37" "hex_upper d < 128"
proof -
  from assms have "d = 0 \<or> d = 1 \<or> d = 2 \<or> d = 3 \<or> d = 4 \<or> d = 5 \<or> d = 6 \<or> d = 7
      \<or> d = 8 \<or> d = 9 \<or> d = 10 \<or> d = 11 \<or> d = 12 \<or> d = 13 \<or> d = 14 \<or> d = 15"
    by arith
  then show "hexval (hex_upper d) = Some d" "hex_upper d \<noteq> 37" "hex_upper d < 128"
    by (auto simp: hexval_def hex_upper_def lit_def)
qed

lemma unquote_item_format:
  assumes "b < 256"
  shows "unquote_item (hex_upper (b div 16) # hex_upper (b mod 16) # rest) = b # rest"
proof -
  have "b div 16 < 16" "b mod 16 < 16" using assms by auto
  then show ?thesis
    by (simp add: unquote_item_def hex_upper_facts(1))
qed

lemma split_on_not_Nil: "split_on sep s \<noteq> []"
  by (induction sep s rule: split_on.induct) (auto simp: split_on.simps(2) split: list.splits)

lemma split_on_single_Cons:
  "split_on [x] (c # cs) =
     (if c = x then [] # split_on [x] cs
      else (c # hd (split_on [x] cs)) # tl (split_on [x] cs))"
  using split_on_not_Nil [of "[x]" cs]
  by (cases "split_on [x] cs") (auto simp: startswith_def split_on.simps(2))

declare split_on.simps(2) [simp del]

lemma split_on_single_whole: "split_on [x] s = [h] \<Longrightarrow> h = s"
proof (induction s arbitrary: h)
  case Nil
  then show ?case by simp
next
  case (Cons c cs)
  show ?case
  proof (cases "c = x")
    case True
    with Cons.prems split_on_not_Nil [of "[x]" cs] show ?thesis
      by (simp add: split_on_single_Cons)
  next
    case False
    with Cons.prems have "split_on [x] cs = [hd (split_on [x] cs)]" "h = c # hd (split_on [x] cs)"
      using split_on_not_Nil [of "[x]" cs]
      by (cases "split_on [x] cs"; simp add: split_on_single_Cons)+
    with Cons.IH [of "hd (split_on [x] cs)"] show ?thesis by simp
  qed
qed

lemma quoter_ascii:
  "b < 256 \<Longrightarrow> list_all (\<lambda>c. c < 128) (quoter (filter (\<lambda>c. c < 128) (lit ''/'')) b)"
  using safe_byte_facts [of b] hex_upper_facts(3) [of "b div 16"] hex_upper_facts(3) [of "b mod 16"]
  by (auto simp: quoter_def format_02X_def lit_def)

lemma quoted_unquote_bits:
  assumes "is_bytes bs"
  shows "concat (hd (split_on [37] (concat (map (quoter (filter (\<lambda>c. c < 128) (lit ''/''))) bs)))
           # map unquote_item
               (tl (split_on [37] (concat (map (quoter (filter (\<lambda>c. c < 128) (lit ''/''))) bs)))))
         = bs"
  using assms
proof (induction bs)
  case Nil
  then show ?case by simp
next
  case (Cons b bs)
  let ?S = "filter (\<lambda>c. c < 128) (lit ''/'')"
  let ?q = "concat (map (quoter ?S) bs)"
  from Cons.prems have b: "b < 256" and bs: "is_bytes bs" by (simp_all add: is_bytes_def)
  note IH = Cons.IH [OF bs]
  show ?case
  proof (cases "b \<in> set (ALWAYS_SAFE_BYTES @ ?S)")
    case True
    with safe_byte_facts [of b] have "b \<noteq> 37" by simp
    with True IH show ?thesis
      by (simp add: quoter_def split_on_single_Cons)
  next
    case False
    have d: "b div 16 < 16" "b mod 16 < 16" using b by auto
    have "split_on [37] (concat (map (quoter ?S) (b # bs)))
          = [] # (hex_upper (b div 16) # hex_upper (b mod 16) # hd (split_on [37] ?q))
               # tl (split_on [37] ?q)"
      using False hex_upper_facts(2) [OF d(1)] hex_upper_facts(2) [OF d(2)]
      by (simp add: quoter_def format_02X_def lit_def split_on_single_Cons)
    with IH unquote_item_format [OF b] show ?thesis by simp
  qed
qed

lemma contains_single [simp]: "contains [x] s = (x \<in> set s)"
  by (induction s) (auto simp: startswith_def)

lemma rstrip_Nil_conv: "(rstrip chars s = []) = (set s \<subseteq> set chars)"
  by (auto simp: rstrip_def dropWhile_eq_Nil_conv)

lemma ascii_runs_ascii:
  "s \<noteq> [] \<Longrightarrow> list_all (\<lambda>c. c < 128) s \<Longrightarrow> ascii_runs s = [(True, s)]"
proof (induction s)
  case Nil
  then show ?case by simp
next
  case (Cons c cs)
  then show ?case by (cases cs) auto
qed

lemma quoted_ascii:
  "is_bytes bs \<Longrightarrow>
   list_all (\<lambda>c. c < 128) (concat (map (quoter (filter (\<lambda>c. c < 128) (lit ''/''))) bs))"
  using quoter_ascii by (induction bs) (auto simp: is_bytes_def)

lemma quoter_not_Nil: "quoter S b \<noteq> []"
  by (simp add: quoter_def format_02X_def lit_def)

lemma unquote_to_bytes_quoted:
  assumes "is_bytes bs"
  shows "unquote_to_bytes (concat (map (quoter (filter (\<lambda>c. c < 128) (lit ''/''))) bs)) = Inr bs"
proof (cases "bs = []")
  case True
  then show ?thesis by (simp add: unquote_to_bytes_def)
next
  case False
  let ?q = "concat (map (quoter (filter (\<lambda>c. c < 128) (lit ''/''))) bs)"
  let ?B = "split_on [37] ?q"
  from False have ne: "?q \<noteq> []"
    by (cases bs) (simp_all add: quoter_not_Nil)
  have enc: "str_encode ?q = Inr ?q"
    by (rule str_encode_ascii [OF quoted_ascii [OF assms]])
  have bits: "concat (hd ?B # map unquote_item (tl ?B)) = bs"
    by (rule quoted_unquote_bits [OF assms])
  show ?thesis
  proof (cases "length ?B = 1")
    case True
    then obtain h where h: "?B = [h]" by (cases ?B) auto
    from split_on_single_whole [OF h] bits h have eq: "?q = bs" by simp
    from True ne enc have "unquote_to_bytes ?q = Inr ?q"
      by (simp add: unquote_to_bytes_def lit_def quoter_not_Nil)
    also have "(Inr ?q :: exn + bytes) = Inr bs" by (rule arg_cong [OF eq])
    finally show ?thesis .
  next
    case False
    with ne enc bits show ?thesis
      by (simp add: unquote_to_bytes_def lit_def Let_def quoter_not_Nil)
  qed
qed

lemma unquote_quote:
  assumes "is_str s" "quote s = Inr q"
  shows "unquote q = Inr s"
proof (cases "s = []")
  case True
  with assms show ?thesis by (simp add: quote_def unquote_def lit_def)
next
  case False
  let ?S = "filter (\<lambda>c. c < 128) (lit ''/'')"
  from assms False obtain bs where bs: "str_encode s = Inr bs"
    and q: "quote_from_bytes bs (lit ''/'') = Inr q"
    by (auto simp: quote_def split: sum.splits)
  have isb: "is_bytes bs" by (rule str_encode_is_bytes [OF assms(1) bs])
  have dec: "bytes_decode bs = Inr s" "bytes_decode_replace bs = s"
    using bytes_decode_str_encode [OF assms(1) bs] bytes_decode_replace_str_encode [OF assms(1) bs]
    by simp_all
  from False bs have ne: "bs \<noteq> []"
    by (cases s) (auto split: sum.splits dest: utf8_encode_cp_nonempty)
  show ?thesis
  proof (cases "set bs \<subseteq> set (ALWAYS_SAFE_BYTES @ ?S)")
    case True
    with q ne dec have qs: "q = s" by (simp add: quote_from_bytes_def rstrip_Nil_conv)
    have a: "list_all (\<lambda>c. c < 128) bs"
      unfolding list_all_iff using True safe_byte_facts by blast
    have p: "37 \<notin> set bs"
      using True safe_byte_facts by blast
    have "is_str bs" using a by (auto simp: is_str_def list_all_iff)
    from bytes_decode_str_encode [OF this str_encode_ascii [OF a]] dec have "s = bs" by simp
    with p qs show ?thesis by (simp add: unquote_def lit_def)
  next
    case False
    with q ne have qq: "q = concat (map (quoter ?S) bs)"
      by (simp add: quote_from_bytes_def rstrip_Nil_conv Let_def)
    from False obtain b where "b \<in> set bs" "b \<notin> set (ALWAYS_SAFE_BYTES @ ?S)" by auto
    then have pc: "37 \<in> set q"
      unfolding qq by (auto simp: quoter_def format_02X_def lit_def intro!: bexI [of _ b])
    then have qne: "q \<noteq> []" by auto
    have "ascii_runs q = [(True, q)]"
      using ascii_runs_ascii [OF qne] quoted_ascii [OF isb] qq by simp
    with pc unquote_to_bytes_quoted [OF isb] dec show ?thesis
      by (simp add: unquote_def lit_def qq)
  qed
qed

lemma unsafe_safe:
  assumes "is_str p" "\<not> contains (lit ''://'') p" "safe p = Inr u"
  shows "unsafe u = Inr p"
proof -
  from assms obtain q where q: "quote p = Inr q" and u: "u = lit ''file://'' @ q"
    by (auto simp: safe_def split: sum.splits)
  have "contains (lit ''://'') u" "startswith u (lit ''file://'')"
    unfolding u by (simp_all add: lit_def startswith_def)
  with unquote_quote [OF assms(1) q] show ?thesis
    by (simp add: unsafe_def u lit_def)
qed

lemma quote_total:
  assumes "is_str s" "\<not> list_ex is_surrogate s"
  shows "\<exists>q. quote s = Inr q"
proof -
  from str_encode_encodable [OF assms] obtain bs where bs: "str_encode s = Inr bs" ..
  from bytes_decode_str_encode [OF assms(1) bs] show ?thesis
    by (simp add: quote_def quote_from_bytes_def bs Let_def)
qed

section \<open>The URI codec\<close>

lemma safe_raises_on_surrogate:
  assumes "list_ex is_surrogate p" "\<not> contains (lit ''://'') p"
  shows "safe p = Inl UnicodeEncodeError"
proof -
  from assms(1) have "p \<noteq> []" by auto
  with assms(2) str_encode_surrogate [OF assms(1)] show ?thesis
    by (simp add: safe_def quote_def)
qed

text \<open>
  C2, as amended: for every local path \<open>p\<close> (a \<open>str\<close> without \<open>://\<close>) that has no
  surrogate code point, so that UTF-8 can encode it, \<open>unsafe(safe(p))\<close> returns \<open>p\<close>:
  encoding the path to its \<open>file://\<close> URI and decoding it back round-trips exactly,
  whatever characters need percent-escaping.
\<close>

theorem unsafe_safe_roundtrip:
  assumes "is_str p" "\<not> list_ex is_surrogate p" "\<not> contains (lit ''://'') p"
  shows "unsafe_of_safe p = Inr p"
proof -
  from quote_total [OF assms(1,2)] obtain q where q: "quote p = Inr q" ..
  with assms(3) have s: "safe p = Inr (lit ''file://'' @ q)"
    by (simp add: safe_def)
  from unsafe_safe [OF assms(1,3) s] s show ?thesis
    by (simp add: unsafe_of_safe_def)
qed

theorem unsafe_safe_roundtrip_witness:
  "is_str example_path \<and> \<not> list_ex is_surrogate example_path
   \<and> \<not> contains (lit ''://'') example_path
   \<and> unsafe_of_safe example_path = Inr example_path"
  using unsafe_safe_roundtrip [of example_path]
  by (simp add: example_path_def is_str_def is_surrogate_def lit_def startswith_def)

text \<open>
  C2 as stated fails: the \<open>str\<close> \<open>'\udc80'\<close>, which is how Python names a file whose name
  is the single byte \<open>0x80\<close>, has no scheme separator, and \<open>safe\<close> raises
  \<open>UnicodeEncodeError\<close> on it, so that \<open>unsafe(safe(p))\<close> does not return \<open>p\<close>.
\<close>

theorem unsafe_safe_surrogate_counterexample:
  "is_str [0xDC80] \<and> \<not> contains (lit ''://'') [0xDC80]
   \<and> unsafe_of_safe [0xDC80] = Inl UnicodeEncodeError
   \<and> unsafe_of_safe [0xDC80] \<noteq> Inr [0xDC80]"
  by (simp add: unsafe_of_safe_def safe_def quote_def utf8_encode_cp_def is_surrogate_def
      is_str_def lit_def startswith_def)

section \<open>The constructor of the byte stream\<close>

lemmas io_defs = io_bind_def io_return_def io_raise_def except_GError_def log_call_def

lemmas gio_defs = query_info_size_def query_exists_def file_read_def open_readwrite_def
  create_readwrite_def get_input_stream_def get_output_stream_def new_input_stream_def
  new_io_stream_def

lemmas seek_defs = GioFileAdapter_seek_def stream_seek_def SEEK_END_def SEEK_CUR_def SEEK_SET_def
  cursor_def is_closed_def set_position_def

lemma init_read_ok:
  assumes "files g gf = Some bs" "CHR ''r'' \<in> set m"
  shows "fst (GioFileAdapter_init gf m g)
           = Inr \<lparr>gfile = gf, mode = m,
                  size_attr = (if CHR ''w'' \<in> set m then 0 else length bs),
                  gfd = Some (next_id g), gin = Some (next_id g), gout = None, closed = False\<rparr>"
    and "streams (snd (GioFileAdapter_init gf m g)) (next_id g)
           = Some (FileInputStream gf (if CHR ''a'' \<in> set m then length bs else 0) False)"
    and "calls (snd (GioFileAdapter_init gf m g))
           = calls g @ (if CHR ''w'' \<in> set m then [] else [QueryInfo gf]) @ [Read gf]
               @ (if CHR ''a'' \<in> set m then [Seek (next_id g) 0 G_SEEK_END] else [])"
    and "files (snd (GioFileAdapter_init gf m g)) = files g"
  using assms
  by (simp_all add: GioFileAdapter_init_def io_defs gio_defs seek_defs content_def Let_def)

lemma init_rw_existing:
  assumes "files g gf = Some bs" "CHR ''r'' \<notin> set m" "CHR ''w'' \<in> set m \<or> CHR ''a'' \<in> set m"
  shows "fst (GioFileAdapter_init gf m g)
           = Inr \<lparr>gfile = gf, mode = m,
                  size_attr = (if CHR ''w'' \<in> set m then 0 else length bs),
                  gfd = Some (next_id g), gin = Some (next_id g + 1),
                  gout = Some (next_id g + 2), closed = False\<rparr>"
    and "streams (snd (GioFileAdapter_init gf m g)) (next_id g)
           = Some (FileIOStream gf (if CHR ''a'' \<in> set m then length bs else 0) False
                     (next_id g + 1) (next_id g + 2))"
    and "streams (snd (GioFileAdapter_init gf m g)) (next_id g + 1)
           = Some (InputSide (next_id g) False)"
    and "streams (snd (GioFileAdapter_init gf m g)) (next_id g + 2)
           = Some (OutputSide (next_id g) False)"
    and "calls (snd (GioFileAdapter_init gf m g))
           = calls g @ (if CHR ''w'' \<in> set m then [] else [QueryInfo gf])
               @ [QueryExists gf, OpenReadwrite gf,
                  GetInputStream (next_id g), GetOutputStream (next_id g)]
               @ (if CHR ''a'' \<in> set m then [Seek (next_id g) 0 G_SEEK_END] else [])"
    and "files (snd (GioFileAdapter_init gf m g)) = files g"
  using assms
  by (simp_all add: GioFileAdapter_init_def io_defs gio_defs seek_defs content_def Let_def)

lemma init_w_absent:
  assumes "files g gf = None" "CHR ''r'' \<notin> set m" "CHR ''w'' \<in> set m"
  shows "fst (GioFileAdapter_init gf m g)
           = Inr \<lparr>gfile = gf, mode = m, size_attr = 0,
                  gfd = Some (next_id g), gin = Some (next_id g + 1),
                  gout = Some (next_id g + 2), closed = False\<rparr>"
    and "streams (snd (GioFileAdapter_init gf m g)) (next_id g)
           = Some (FileIOStream gf 0 False (next_id g + 1) (next_id g + 2))"
    and "streams (snd (GioFileAdapter_init gf m g)) (next_id g + 1)
           = Some (InputSide (next_id g) False)"
    and "streams (snd (GioFileAdapter_init gf m g)) (next_id g + 2)
           = Some (OutputSide (next_id g) False)"
    and "calls (snd (GioFileAdapter_init gf m g))
           = calls g @ [QueryExists gf, CreateReadwrite gf,
                        GetInputStream (next_id g), GetOutputStream (next_id g)]
               @ (if CHR ''a'' \<in> set m then [Seek (next_id g) 0 G_SEEK_END] else [])"
    and "files (snd (GioFileAdapter_init gf m g)) = (files g)(gf \<mapsto> [])"
  using assms
  by (simp_all add: GioFileAdapter_init_def io_defs gio_defs seek_defs content_def Let_def)

lemma init_no_flag:
  assumes "files g gf = Some bs" "CHR ''r'' \<notin> set m" "CHR ''w'' \<notin> set m" "CHR ''a'' \<notin> set m"
  shows "GioFileAdapter_init gf m g
           = (Inr \<lparr>gfile = gf, mode = m, size_attr = length bs,
                   gfd = None, gin = None, gout = None, closed = False\<rparr>,
              g\<lparr>calls := calls g @ [QueryInfo gf]\<rparr>)"
  using assms
  by (simp add: GioFileAdapter_init_def io_defs gio_defs seek_defs content_def Let_def)

lemma init_no_w_absent:
  assumes "files g r = None" "CHR ''w'' \<notin> set m"
  shows "GioFileAdapter_init r m g
         = (Inl (IOError G_IO_ERROR_NOT_FOUND), g\<lparr>calls := calls g @ [QueryInfo r]\<rparr>)"
  using assms by (simp add: GioFileAdapter_init_def query_info_size_def io_defs)

lemma init_r_w_absent:
  assumes "files g r = None" "CHR ''w'' \<in> set m" "CHR ''r'' \<in> set m"
  shows "GioFileAdapter_init r m g
         = (Inl (GError G_IO_ERROR_NOT_FOUND), g\<lparr>calls := calls g @ [Read r]\<rparr>)"
  using assms by (simp add: GioFileAdapter_init_def file_read_def io_defs)

text \<open>The ways the constructor can succeed.\<close>

lemma init_cases:
  assumes "fst (GioFileAdapter_init gf m g) = Inr self"
  obtains
    (read) bs where "files g gf = Some bs" "CHR ''r'' \<in> set m"
  | (rw) bs where "files g gf = Some bs" "CHR ''r'' \<notin> set m"
      "CHR ''w'' \<in> set m \<or> CHR ''a'' \<in> set m"
  | (created) "files g gf = None" "CHR ''r'' \<notin> set m" "CHR ''w'' \<in> set m"
  | (no_flag) bs where "files g gf = Some bs" "CHR ''r'' \<notin> set m" "CHR ''w'' \<notin> set m"
      "CHR ''a'' \<notin> set m"
proof (cases "files g gf")
  case None
  show ?thesis
  proof (cases "CHR ''w'' \<in> set m")
    case w: True
    show ?thesis
    proof (cases "CHR ''r'' \<in> set m")
      case True
      from init_r_w_absent [OF None w True] assms show ?thesis by simp
    next
      case False
      from None False w show ?thesis by (rule created)
    qed
  next
    case False
    from init_no_w_absent [OF None False] assms show ?thesis by simp
  qed
next
  case (Some bs)
  then show ?thesis using read rw no_flag by blast
qed

lemma init_fields:
  assumes "fst (GioFileAdapter_init gf m g) = Inr self"
  shows "mode self = m
         \<and> size_attr self = (if CHR ''w'' \<in> set m then 0 else length (content g gf))"
  using assms
proof (cases rule: init_cases)
  case (read bs)
  with assms init_read_ok(1) [OF read] show ?thesis
    by (auto simp: content_def)
next
  case (rw bs)
  with assms init_rw_existing(1) [OF rw] show ?thesis
    by (auto simp: content_def)
next
  case created
  with assms init_w_absent(1) [OF created] show ?thesis
    by (auto simp: content_def)
next
  case (no_flag bs)
  with assms init_no_flag [OF no_flag] show ?thesis
    by (auto simp: content_def)
qed

section \<open>The facade\<close>

text \<open>
  C1: \<open>copy(old, new)\<close> is to resolve the two URIs it was given and copy the one onto the
  other. The code does not: its body reads a name \<open>url\<close> that is bound nowhere, so every
  call raises \<open>NameError\<close> before any URI is resolved, and the backend is left as it was.
\<close>

theorem copy_raises_NameError:
  "GioFileSystem_copy old_url new_url g = (Inl (NameError ''url''), g)"
  by (simp add: GioFileSystem_copy_def load_name_def module_globals_def io_defs)

text \<open>
  C4, as amended: when assertions are enabled (\<open>__debug__\<close> is true, the interpreter's
  default mode), \<open>rename(old, new)\<close> raises \<open>AssertionError\<close> when both URIs resolve to the
  same resource, whether or not they are the same string, and leaves the backend untouched:
  no primitive is called. For distinct resources it is, in either mode, the backend's move,
  called once, with a \<open>GError\<close> of the move turned into \<open>IOError\<close>.
\<close>

theorem rename_asserts_or_moves:
  "(debug \<and> new_for_uri g old_url = new_for_uri g new_url \<longrightarrow>
      GioFileSystem_rename debug old_url new_url g = (Inl AssertionError, g))
   \<and> (new_for_uri g old_url \<noteq> new_for_uri g new_url \<longrightarrow>
      GioFileSystem_rename debug old_url new_url g
        = except_GError (file_move (new_for_uri g old_url) (new_for_uri g new_url)) g
      \<and> calls (snd (GioFileSystem_rename debug old_url new_url g))
        = calls g @ [Move (new_for_uri g old_url) (new_for_uri g new_url)])"
  by (auto simp: GioFileSystem_rename_def file_move_def io_defs Let_def split: option.splits)

theorem rename_asserts_or_moves_witness:
  "True \<and> new_for_uri example_gio (lit ''file:///a'')
           = new_for_uri example_gio (lit ''file:///d/../a'')
   \<and> GioFileSystem_rename True (lit ''file:///a'') (lit ''file:///d/../a'') example_gio
       = (Inl AssertionError, example_gio)
   \<and> new_for_uri example_gio (lit ''file:///a'') \<noteq> new_for_uri example_gio (lit ''file:///b'')
   \<and> fst (GioFileSystem_rename True (lit ''file:///a'') (lit ''file:///b'') example_gio) = Inr ()
   \<and> calls (snd (GioFileSystem_rename True (lit ''file:///a'') (lit ''file:///b'') example_gio))
       = [Move (lit ''file:///a'') (lit ''file:///b'')]"
  using rename_asserts_or_moves [of True example_gio "lit ''file:///a''" "lit ''file:///d/../a''"]
    rename_asserts_or_moves [of True example_gio "lit ''file:///a''" "lit ''file:///b''"]
  by (simp add: example_gio_def lit_def file_move_def io_defs)

text \<open>
  C4 as stated fails: under \<open>python -O\<close> the \<open>assert\<close> is not executed, and \<open>rename(u, u)\<close>
  on an existing file calls the backend's move, which refuses to overwrite, so that the
  call raises the \<open>IOError\<close> kind and not \<open>AssertionError\<close>.
\<close>

theorem rename_onto_itself_optimised_counterexample:
  "new_for_uri example_gio (lit ''file:///a'') = new_for_uri example_gio (lit ''file:///a'')
   \<and> GioFileSystem_rename False (lit ''file:///a'') (lit ''file:///a'') example_gio
       = (Inl (IOError G_IO_ERROR_EXISTS),
          example_gio\<lparr>calls := [Move (lit ''file:///a'') (lit ''file:///a'')]\<rparr>)
   \<and> fst (GioFileSystem_rename False (lit ''file:///a'') (lit ''file:///a'') example_gio)
       \<noteq> Inl AssertionError
   \<and> Move (lit ''file:///a'') (lit ''file:///a'')
       \<in> set (calls (snd (GioFileSystem_rename False (lit ''file:///a'') (lit ''file:///a'')
                             example_gio)))"
  by (simp add: GioFileSystem_rename_def file_move_def io_defs example_gio_def lit_def Let_def)

text \<open>
  C6: opening a URI whose resource does not exist in a mode that contains \<open>r\<close> fails with
  \<open>IOError\<close>; no stream is made and no file appears. Unless the mode also contains \<open>w\<close>,
  it is the size query of the constructor that fails, and the constructor itself raises the
  \<open>IOError\<close>.
\<close>

theorem open_read_nonexistent:
  assumes "files g (new_for_uri g uri) = None" "CHR ''r'' \<in> set m"
  shows "fst (GioFileSystem_open uri m g) = Inl (IOError G_IO_ERROR_NOT_FOUND)
         \<and> files (snd (GioFileSystem_open uri m g)) = files g
         \<and> streams (snd (GioFileSystem_open uri m g)) = streams g
         \<and> (CHR ''w'' \<notin> set m \<longrightarrow>
              GioFileAdapter_init (new_for_uri g uri) m g
              = (Inl (IOError G_IO_ERROR_NOT_FOUND),
                 g\<lparr>calls := calls g @ [QueryInfo (new_for_uri g uri)]\<rparr>))"
proof (cases "CHR ''w'' \<in> set m")
  case True
  from init_r_w_absent [OF assms(1) True assms(2)] show ?thesis
    by (simp add: GioFileSystem_open_def io_defs True)
next
  case False
  from init_no_w_absent [OF assms(1) False] show ?thesis
    by (simp add: GioFileSystem_open_def io_defs False)
qed

theorem open_read_nonexistent_witness:
  "files example_gio (new_for_uri example_gio (lit ''file:///b'')) = None
   \<and> CHR ''r'' \<in> set ''rb'' \<and> CHR ''w'' \<notin> set ''rb''
   \<and> fst (GioFileSystem_open (lit ''file:///b'') ''rb'' example_gio)
       = Inl (IOError G_IO_ERROR_NOT_FOUND)
   \<and> GioFileAdapter_init (lit ''file:///b'') ''rb'' example_gio
       = (Inl (IOError G_IO_ERROR_NOT_FOUND),
          example_gio\<lparr>calls := [QueryInfo (lit ''file:///b'')]\<rparr>)"
  using open_read_nonexistent [of example_gio "lit ''file:///b''" "''rb''"]
  by (simp add: example_gio_def lit_def)

section \<open>The operations of the byte stream\<close>

text \<open>
  C8: on every stream the constructor returns, \<open>readable()\<close> is true, and \<open>writable()\<close> is
  true exactly when the mode contains \<open>w\<close>; a stream opened with \<open>ab\<close> is not writable.
\<close>

theorem readable_always_writable_iff_w:
  assumes "fst (GioFileAdapter_init gf m g) = Inr self"
  shows "GioFileAdapter_readable self
         \<and> GioFileAdapter_writable self = (CHR ''w'' \<in> set m)"
  using init_fields [OF assms]
  by (simp add: GioFileAdapter_readable_def GioFileAdapter_writable_def)

theorem readable_always_writable_iff_w_witness:
  "fst (GioFileAdapter_init (lit ''file:///a'') ''ab'' example_gio)
     = Inr \<lparr>gfile = lit ''file:///a'', mode = ''ab'', size_attr = 4,
            gfd = Some 0, gin = Some 1, gout = Some 2, closed = False\<rparr>
   \<and> GioFileAdapter_readable \<lparr>gfile = lit ''file:///a'', mode = ''ab'', size_attr = 4,
            gfd = Some 0, gin = Some 1, gout = Some 2, closed = False\<rparr>
   \<and> \<not> GioFileAdapter_writable \<lparr>gfile = lit ''file:///a'', mode = ''ab'', size_attr = 4,
            gfd = Some 0, gin = Some 1, gout = Some 2, closed = False\<rparr>"
  using readable_always_writable_iff_w [of "lit ''file:///a''" "''ab''" example_gio
      "\<lparr>gfile = lit ''file:///a'', mode = ''ab'', size_attr = 4,
            gfd = Some 0, gin = Some 1, gout = Some 2, closed = False\<rparr>"]
    init_rw_existing(1) [of example_gio "lit ''file:///a''" "lit ''a\<newline>b\<newline>''" "''ab''"]
  by (simp add: example_gio_def lit_def)

lemma close_input_is_owner:
  assumes "gfd self = Some h" "gin self = Some h" "gout self = None" "streams g h \<noteq> None"
  shows "fst (GioFileAdapter_close self g) = Inr (self\<lparr>closed := True\<rparr>)"
    and "calls (snd (GioFileAdapter_close self g)) = calls g @ [Close h]"
    and "is_closed (snd (GioFileAdapter_close self g)) h"
    and "\<forall>k. k \<noteq> h \<longrightarrow> streams (snd (GioFileAdapter_close self g)) k = streams g k"
    and "files (snd (GioFileAdapter_close self g)) = files g"
  using assms
  by (auto simp: GioFileAdapter_close_def stream_close_def set_closed_def is_closed_def io_defs
      Let_def split: stream.splits)

lemma close_separate_owner:
  assumes "gfd self = Some fd" "gin self = Some i" "gout self = Some ou"
    "fd \<noteq> i" "fd \<noteq> ou" "i \<noteq> ou"
    "streams g fd \<noteq> None" "streams g i \<noteq> None" "streams g ou \<noteq> None"
  shows "fst (GioFileAdapter_close self g) = Inr (self\<lparr>closed := True\<rparr>)"
    and "calls (snd (GioFileAdapter_close self g)) = calls g @ [Close i, Close ou, Close fd]"
    and "is_closed (snd (GioFileAdapter_close self g)) i
         \<and> is_closed (snd (GioFileAdapter_close self g)) ou
         \<and> is_closed (snd (GioFileAdapter_close self g)) fd"
    and "\<forall>k. k \<noteq> fd \<and> k \<noteq> i \<and> k \<noteq> ou \<longrightarrow>
           streams (snd (GioFileAdapter_close self g)) k = streams g k"
    and "files (snd (GioFileAdapter_close self g)) = files g"
  using assms
  by (auto simp: GioFileAdapter_close_def stream_close_def set_closed_def is_closed_def io_defs
      Let_def split: stream.splits)

text \<open>
  C9: \<open>close()\<close> on a stream the constructor returned, in any later state of the backend
  in which its stream objects still exist. When the mode contains \<open>r\<close> the input stream is
  the owning stream: it is closed exactly once and is closed afterwards. In write or append
  mode the input side, the output side and the owning stream are three objects: each is
  closed once, the owner last, and all three are closed afterwards. No other stream and no
  file is touched.
\<close>

theorem close_releases_each_stream_once:
  assumes "fst (GioFileAdapter_init gf m g) = Inr self"
    and "\<forall>h. streams (snd (GioFileAdapter_init gf m g)) h \<noteq> None \<longrightarrow> streams g' h \<noteq> None"
  shows "(CHR ''r'' \<in> set m \<longrightarrow>
            (\<exists>h. gfd self = Some h \<and> gin self = Some h \<and> gout self = None
               \<and> fst (GioFileAdapter_close self g') = Inr (self\<lparr>closed := True\<rparr>)
               \<and> calls (snd (GioFileAdapter_close self g')) = calls g' @ [Close h]
               \<and> is_closed (snd (GioFileAdapter_close self g')) h
               \<and> (\<forall>k. k \<noteq> h \<longrightarrow>
                     streams (snd (GioFileAdapter_close self g')) k = streams g' k)))
         \<and> (CHR ''r'' \<notin> set m \<and> (CHR ''w'' \<in> set m \<or> CHR ''a'' \<in> set m) \<longrightarrow>
            (\<exists>fd i ou. gfd self = Some fd \<and> gin self = Some i \<and> gout self = Some ou
               \<and> fd \<noteq> i \<and> fd \<noteq> ou \<and> i \<noteq> ou
               \<and> fst (GioFileAdapter_close self g') = Inr (self\<lparr>closed := True\<rparr>)
               \<and> calls (snd (GioFileAdapter_close self g'))
                   = calls g' @ [Close i, Close ou, Close fd]
               \<and> is_closed (snd (GioFileAdapter_close self g')) i
               \<and> is_closed (snd (GioFileAdapter_close self g')) ou
               \<and> is_closed (snd (GioFileAdapter_close self g')) fd
               \<and> (\<forall>k. k \<noteq> fd \<and> k \<noteq> i \<and> k \<noteq> ou \<longrightarrow>
                     streams (snd (GioFileAdapter_close self g')) k = streams g' k)))
         \<and> files (snd (GioFileAdapter_close self g')) = files g'"
  using assms(1)
proof (cases rule: init_cases)
  case (read bs)
  let ?h = "next_id g"
  from init_read_ok(1) [OF read] assms(1)
  have s: "gfd self = Some ?h" "gin self = Some ?h" "gout self = None" by auto
  from init_read_ok(2) [OF read] assms(2) have "streams g' ?h \<noteq> None" by simp
  from close_input_is_owner [OF s this] s read(2) show ?thesis by simp
next
  case (rw bs)
  let ?h = "next_id g"
  from init_rw_existing(1) [OF rw] assms(1)
  have s: "gfd self = Some ?h" "gin self = Some (?h + 1)" "gout self = Some (?h + 2)" by auto
  from init_rw_existing(2,3,4) [OF rw] assms(2)
  have l: "streams g' ?h \<noteq> None" "streams g' (?h + 1) \<noteq> None" "streams g' (?h + 2) \<noteq> None"
    by simp_all
  have d: "?h \<noteq> ?h + 1" "?h \<noteq> ?h + 2" "?h + 1 \<noteq> ?h + 2" by simp_all
  from close_separate_owner [OF s d l] s rw(2) show ?thesis by simp
next
  case created
  let ?h = "next_id g"
  from init_w_absent(1) [OF created] assms(1)
  have s: "gfd self = Some ?h" "gin self = Some (?h + 1)" "gout self = Some (?h + 2)" by auto
  from init_w_absent(2,3,4) [OF created] assms(2)
  have l: "streams g' ?h \<noteq> None" "streams g' (?h + 1) \<noteq> None" "streams g' (?h + 2) \<noteq> None"
    by simp_all
  have d: "?h \<noteq> ?h + 1" "?h \<noteq> ?h + 2" "?h + 1 \<noteq> ?h + 2" by simp_all
  from close_separate_owner [OF s d l] s created(2) show ?thesis by simp
next
  case (no_flag bs)
  from init_no_flag [OF no_flag] assms(1)
  have "gfd self = None" "gin self = None" "gout self = None" by auto
  with no_flag show ?thesis
    by (simp add: GioFileAdapter_close_def io_defs Let_def)
qed

theorem close_releases_each_stream_once_witness:
  "fst (GioFileAdapter_init (lit ''file:///a'') ''rb'' example_gio)
     = Inr \<lparr>gfile = lit ''file:///a'', mode = ''rb'', size_attr = 4,
            gfd = Some 0, gin = Some 0, gout = None, closed = False\<rparr>
   \<and> CHR ''r'' \<in> set ''rb''
   \<and> \<not> is_closed (snd (GioFileAdapter_init (lit ''file:///a'') ''rb'' example_gio)) 0
   \<and> calls (snd (GioFileAdapter_close
         \<lparr>gfile = lit ''file:///a'', mode = ''rb'', size_attr = 4,
            gfd = Some 0, gin = Some 0, gout = None, closed = False\<rparr>
         (snd (GioFileAdapter_init (lit ''file:///a'') ''rb'' example_gio))))
     = calls (snd (GioFileAdapter_init (lit ''file:///a'') ''rb'' example_gio)) @ [Close 0]
   \<and> is_closed (snd (GioFileAdapter_close
         \<lparr>gfile = lit ''file:///a'', mode = ''rb'', size_attr = 4,
            gfd = Some 0, gin = Some 0, gout = None, closed = False\<rparr>
         (snd (GioFileAdapter_init (lit ''file:///a'') ''rb'' example_gio)))) 0
   \<and> fst (GioFileAdapter_init (lit ''file:///a'') ''wb'' example_gio)
     = Inr \<lparr>gfile = lit ''file:///a'', mode = ''wb'', size_attr = 0,
            gfd = Some 0, gin = Some 1, gout = Some 2, closed = False\<rparr>
   \<and> CHR ''r'' \<notin> set ''wb'' \<and> CHR ''w'' \<in> set ''wb''
   \<and> \<not> is_closed (snd (GioFileAdapter_init (lit ''file:///a'') ''wb'' example_gio)) 0
   \<and> \<not> is_closed (snd (GioFileAdapter_init (lit ''file:///a'') ''wb'' example_gio)) 1
   \<and> \<not> is_closed (snd (GioFileAdapter_init (lit ''file:///a'') ''wb'' example_gio)) 2
   \<and> calls (snd (GioFileAdapter_close
         \<lparr>gfile = lit ''file:///a'', mode = ''wb'', size_attr = 0,
            gfd = Some 0, gin = Some 1, gout = Some 2, closed = False\<rparr>
         (snd (GioFileAdapter_init (lit ''file:///a'') ''wb'' example_gio))))
     = calls (snd (GioFileAdapter_init (lit ''file:///a'') ''wb'' example_gio))
         @ [Close 1, Close 2, Close 0]
   \<and> is_closed (snd (GioFileAdapter_close
         \<lparr>gfile = lit ''file:///a'', mode = ''wb'', size_attr = 0,
            gfd = Some 0, gin = Some 1, gout = Some 2, closed = False\<rparr>
         (snd (GioFileAdapter_init (lit ''file:///a'') ''wb'' example_gio)))) 0
   \<and> is_closed (snd (GioFileAdapter_close
         \<lparr>gfile = lit ''file:///a'', mode = ''wb'', size_attr = 0,
            gfd = Some 0, gin = Some 1, gout = Some 2, closed = False\<rparr>
         (snd (GioFileAdapter_init (lit ''file:///a'') ''wb'' example_gio)))) 1
   \<and> is_closed (snd (GioFileAdapter_close
         \<lparr>gfile = lit ''file:///a'', mode = ''wb'', size_attr = 0,
            gfd = Some 0, gin = Some 1, gout = Some 2, closed = False\<rparr>
         (snd (GioFileAdapter_init (lit ''file:///a'') ''wb'' example_gio)))) 2"
proof -
  let ?A = "lit ''file:///a''"
  let ?R = "\<lparr>gfile = ?A, mode = ''rb'', size_attr = 4,
            gfd = Some 0, gin = Some 0, gout = None, closed = False\<rparr>"
  let ?W = "\<lparr>gfile = ?A, mode = ''wb'', size_attr = 0,
            gfd = Some 0, gin = Some 1, gout = Some 2, closed = False\<rparr>"
  let ?gr = "snd (GioFileAdapter_init ?A ''rb'' example_gio)"
  let ?gw = "snd (GioFileAdapter_init ?A ''wb'' example_gio)"
  have f: "files example_gio ?A = Some (lit ''a\<newline>b\<newline>'')"
    by (simp add: example_gio_def)
  have n: "next_id example_gio = 0" by (simp add: example_gio_def)
  have r: "CHR ''r'' \<in> set ''rb''" by simp
  have w: "CHR ''r'' \<notin> set ''wb''" "CHR ''w'' \<in> set ''wb'' \<or> CHR ''a'' \<in> set ''wb''"
    by simp_all
  have ir: "fst (GioFileAdapter_init ?A ''rb'' example_gio) = Inr ?R"
    using init_read_ok(1) [OF f r] by (simp add: lit_def n)
  have iw: "fst (GioFileAdapter_init ?A ''wb'' example_gio) = Inr ?W"
    using init_rw_existing(1) [OF f w] by (simp add: lit_def n)
  have or: "\<not> is_closed ?gr 0"
    using init_read_ok(2) [OF f r] by (simp add: is_closed_def n)
  have ow: "\<not> is_closed ?gw 0" "\<not> is_closed ?gw 1" "\<not> is_closed ?gw 2"
    using init_rw_existing(2,3,4) [OF f w] by (simp_all add: is_closed_def n numeral_2_eq_2)
  have Tr: "calls (snd (GioFileAdapter_close ?R ?gr)) = calls ?gr @ [Close 0]
      \<and> is_closed (snd (GioFileAdapter_close ?R ?gr)) 0"
    using close_releases_each_stream_once [OF ir, of ?gr] r by simp
  have Tw: "calls (snd (GioFileAdapter_close ?W ?gw)) = calls ?gw @ [Close 1, Close 2, Close 0]
      \<and> is_closed (snd (GioFileAdapter_close ?W ?gw)) 0
      \<and> is_closed (snd (GioFileAdapter_close ?W ?gw)) 1
      \<and> is_closed (snd (GioFileAdapter_close ?W ?gw)) 2"
    using close_releases_each_stream_once [OF iw, of ?gw] w by simp
  from ir r or Tr iw w(1) ow Tw show ?thesis by simp
qed

lemmas read_defs = GioFileAdapter_read_def read_via_def GioFileAdapter_readable_def read_bytes_def
  is_input_stream_def

lemma read_fresh_input:
  assumes "gin self = Some h" "streams g h = Some (FileInputStream r p False)" "n < 0"
  shows "fst (GioFileAdapter_read self n g) = Inr (take (size_attr self) (drop p (content g r)))"
  using assms by (simp add: read_defs io_defs cursor_def is_closed_def content_def Let_def)

lemma read_fresh_input_side:
  assumes "gin self = Some h" "streams g h = Some (InputSide ow False)"
    "streams g ow = Some (FileIOStream r p c i ou)" "n < 0"
  shows "fst (GioFileAdapter_read self n g) = Inr (take (size_attr self) (drop p (content g r)))"
  using assms by (simp add: read_defs io_defs cursor_def is_closed_def content_def Let_def)

lemma read_trace:
  assumes "gin self = Some h" "n < 0"
  shows "calls (snd (GioFileAdapter_read self n g)) = calls g @ [ReadBytes h (size_attr self)]"
  using assms
  by (auto simp: read_defs io_defs set_position_def Let_def split: option.splits stream.splits)

text \<open>
  C7: on a stream the constructor returned, in any later state of the backend,
  \<open>read(n)\<close> with a negative \<open>n\<close> is \<open>read(self.size)\<close>: the size cached by the constructor
  (0 when the mode contains \<open>w\<close>, else the length the resource had then). The one backend
  call it makes is \<open>read_bytes\<close> with that count, no size query; on an open input stream
  at position \<open>p\<close> it returns at most that many bytes from \<open>p\<close> on, whatever the resource
  holds by now. \<open>read\<close> raises \<open>OSError\<close> when the \<open>readable()\<close> it calls returns false.
\<close>

theorem read_negative_reads_cached_size:
  assumes "fst (GioFileAdapter_init gf m g0) = Inr self" "n < 0"
  shows "size_attr self = (if CHR ''w'' \<in> set m then 0 else length (content g0 gf))
         \<and> GioFileAdapter_read self n g = GioFileAdapter_read self (int (size_attr self)) g
         \<and> (\<forall>h. gin self = Some h \<longrightarrow>
               calls (snd (GioFileAdapter_read self n g))
               = calls g @ [ReadBytes h (size_attr self)])
         \<and> (\<forall>h r p. gin self = Some h \<longrightarrow> streams g h = Some (FileInputStream r p False) \<longrightarrow>
               fst (GioFileAdapter_read self n g)
               = Inr (take (size_attr self) (drop p (content g r))))
         \<and> (\<not> rd self \<longrightarrow>
               read_via rd self n g = (Inl (OSError ''File is not readable''), g))"
proof -
  have 1: "size_attr self = (if CHR ''w'' \<in> set m then 0 else length (content g0 gf))"
    using init_fields [OF assms(1)] by simp
  have 2: "GioFileAdapter_read self n g = GioFileAdapter_read self (int (size_attr self)) g"
    using assms(2) by (simp add: GioFileAdapter_read_def read_via_def)
  have 3: "\<forall>h. gin self = Some h \<longrightarrow>
      calls (snd (GioFileAdapter_read self n g)) = calls g @ [ReadBytes h (size_attr self)]"
    using read_trace [OF _ assms(2)] by blast
  have 4: "\<forall>h r p. gin self = Some h \<longrightarrow> streams g h = Some (FileInputStream r p False) \<longrightarrow>
      fst (GioFileAdapter_read self n g) = Inr (take (size_attr self) (drop p (content g r)))"
    using read_fresh_input [OF _ _ assms(2)] by blast
  have 5: "\<not> rd self \<longrightarrow>
      read_via rd self n g = (Inl (OSError ''File is not readable''), g)"
    by (simp add: read_via_def io_raise_def)
  from 1 2 3 4 5 show ?thesis by (intro conjI)
qed

theorem read_negative_reads_cached_size_witness:
  "fst (GioFileAdapter_init (lit ''file:///a'') ''rb'' example_gio)
     = Inr \<lparr>gfile = lit ''file:///a'', mode = ''rb'', size_attr = 4,
            gfd = Some 0, gin = Some 0, gout = None, closed = False\<rparr>
   \<and> (- 1 :: int) < 0
   \<and> streams ((snd (GioFileAdapter_init (lit ''file:///a'') ''rb'' example_gio))
                \<lparr>files := [lit ''file:///a'' \<mapsto> lit ''a\<newline>b\<newline>cd'']\<rparr>) 0
       = Some (FileInputStream (lit ''file:///a'') 0 False)
   \<and> fst (GioFileAdapter_read
         \<lparr>gfile = lit ''file:///a'', mode = ''rb'', size_attr = 4,
            gfd = Some 0, gin = Some 0, gout = None, closed = False\<rparr> (- 1)
         ((snd (GioFileAdapter_init (lit ''file:///a'') ''rb'' example_gio))
            \<lparr>files := [lit ''file:///a'' \<mapsto> lit ''a\<newline>b\<newline>cd'']\<rparr>))
       = Inr (lit ''a\<newline>b\<newline>'')
   \<and> \<not> (\<lambda>_. False) \<lparr>gfile = lit ''file:///a'', mode = ''rb'', size_attr = 4,
            gfd = Some 0, gin = Some 0, gout = None, closed = False\<rparr>
   \<and> fst (read_via (\<lambda>_. False)
         \<lparr>gfile = lit ''file:///a'', mode = ''rb'', size_attr = 4,
            gfd = Some 0, gin = Some 0, gout = None, closed = False\<rparr> (- 1)
         ((snd (GioFileAdapter_init (lit ''file:///a'') ''rb'' example_gio))
            \<lparr>files := [lit ''file:///a'' \<mapsto> lit ''a\<newline>b\<newline>cd'']\<rparr>))
       = Inl (OSError ''File is not readable'')"
proof -
  let ?S = "\<lparr>gfile = lit ''file:///a'', mode = ''rb'', size_attr = 4,
            gfd = Some 0, gin = Some 0, gout = None, closed = False\<rparr>"
  let ?G = "(snd (GioFileAdapter_init (lit ''file:///a'') ''rb'' example_gio))
            \<lparr>files := [lit ''file:///a'' \<mapsto> lit ''a\<newline>b\<newline>cd'']\<rparr>"
  have f: "files example_gio (lit ''file:///a'') = Some (lit ''a\<newline>b\<newline>'')"
    by (simp add: example_gio_def)
  have r: "CHR ''r'' \<in> set ''rb''" by simp
  have i: "fst (GioFileAdapter_init (lit ''file:///a'') ''rb'' example_gio) = Inr ?S"
    using init_read_ok(1) [OF f r] by (simp add: lit_def example_gio_def)
  have n: "(- 1 :: int) < 0" by simp
  have st: "streams ?G 0 = Some (FileInputStream (lit ''file:///a'') 0 False)"
    using init_read_ok(2) [OF f r] by (simp add: example_gio_def)
  have nr: "\<not> (\<lambda>_. False) ?S" by simp
  note T = read_negative_reads_cached_size [OF i n, of ?G "\<lambda>_. False"]
  have d: "fst (GioFileAdapter_read ?S (- 1) ?G) = Inr (lit ''a\<newline>b\<newline>'')"
    using T [THEN conjunct2, THEN conjunct2, THEN conjunct2, THEN conjunct1, rule_format,
        of 0 "lit ''file:///a''" 0] st
    by (simp add: content_def lit_def)
  have e: "fst (read_via (\<lambda>_. False) ?S (- 1) ?G) = Inl (OSError ''File is not readable'')"
    using T [THEN conjunct2, THEN conjunct2, THEN conjunct2, THEN conjunct2] by simp
  from i n st d nr e show ?thesis by (intro conjI)
qed

text \<open>
  C10: when the mode contains \<open>w\<close>, the stream the constructor returns has the cached
  size 0, the constructor has made no size query, and a \<open>read\<close> with a negative size right
  after it returns the empty \<open>bytes\<close>, whatever the resource holds.
\<close>

theorem write_mode_caches_size_zero:
  assumes "CHR ''w'' \<in> set m" "fst (GioFileAdapter_init gf m g) = Inr self"
  shows "size_attr self = 0
         \<and> (\<forall>r. QueryInfo r \<notin> set (drop (length (calls g)) (calls (snd (GioFileAdapter_init gf m g)))))
         \<and> (n < 0 \<longrightarrow>
              fst (GioFileAdapter_read self n (snd (GioFileAdapter_init gf m g))) = Inr [])"
  using assms(2)
proof (cases rule: init_cases)
  case (read bs)
  from init_read_ok(1) [OF read] assms have s: "size_attr self = 0" "gin self = Some (next_id g)"
    by auto
  from init_read_ok(3) [OF read] assms(1)
  have c: "\<forall>r. QueryInfo r \<notin> set (drop (length (calls g)) (calls (snd (GioFileAdapter_init gf m g))))"
    by simp
  have "n < 0 \<Longrightarrow> fst (GioFileAdapter_read self n (snd (GioFileAdapter_init gf m g))) = Inr []"
    using read_fresh_input [OF s(2) init_read_ok(2) [OF read], of n] s(1) by simp
  with s c show ?thesis by simp
next
  case (rw bs)
  from init_rw_existing(1) [OF rw] assms
  have s: "size_attr self = 0" "gin self = Some (next_id g + 1)" by auto
  from init_rw_existing(5) [OF rw] assms(1)
  have c: "\<forall>r. QueryInfo r \<notin> set (drop (length (calls g)) (calls (snd (GioFileAdapter_init gf m g))))"
    by simp
  have "n < 0 \<Longrightarrow> fst (GioFileAdapter_read self n (snd (GioFileAdapter_init gf m g))) = Inr []"
    using read_fresh_input_side [OF s(2) init_rw_existing(3) [OF rw] init_rw_existing(2) [OF rw], of n]
      s(1) by simp
  with s c show ?thesis by simp
next
  case created
  from init_w_absent(1) [OF created] assms
  have s: "size_attr self = 0" "gin self = Some (next_id g + 1)" by auto
  from init_w_absent(5) [OF created]
  have c: "\<forall>r. QueryInfo r \<notin> set (drop (length (calls g)) (calls (snd (GioFileAdapter_init gf m g))))"
    by simp
  have "n < 0 \<Longrightarrow> fst (GioFileAdapter_read self n (snd (GioFileAdapter_init gf m g))) = Inr []"
    using read_fresh_input_side [OF s(2) init_w_absent(3) [OF created] init_w_absent(2) [OF created], of n]
      s(1) by simp
  with s c show ?thesis by simp
next
  case (no_flag bs)
  with assms(1) show ?thesis by simp
qed

theorem write_mode_caches_size_zero_witness:
  "CHR ''w'' \<in> set ''wb''
   \<and> files example_gio (lit ''file:///a'') = Some (lit ''a\<newline>b\<newline>'')
   \<and> fst (GioFileAdapter_init (lit ''file:///a'') ''wb'' example_gio)
     = Inr \<lparr>gfile = lit ''file:///a'', mode = ''wb'', size_attr = 0,
            gfd = Some 0, gin = Some 1, gout = Some 2, closed = False\<rparr>
   \<and> (- 1 :: int) < 0
   \<and> fst (GioFileAdapter_read
         \<lparr>gfile = lit ''file:///a'', mode = ''wb'', size_attr = 0,
            gfd = Some 0, gin = Some 1, gout = Some 2, closed = False\<rparr> (- 1)
         (snd (GioFileAdapter_init (lit ''file:///a'') ''wb'' example_gio))) = Inr []"
  using write_mode_caches_size_zero [of "''wb''" "lit ''file:///a''" example_gio
      "\<lparr>gfile = lit ''file:///a'', mode = ''wb'', size_attr = 0,
            gfd = Some 0, gin = Some 1, gout = Some 2, closed = False\<rparr>" "- 1"]
    init_rw_existing(1) [of example_gio "lit ''file:///a''" "lit ''a\<newline>b\<newline>''" "''wb''"]
  by (simp add: example_gio_def lit_def)

section \<open>\<open>readlines\<close> of the two layers\<close>

lemma io_bind_Inr: "fst (m g) = Inr x \<Longrightarrow> io_bind m f g = f x (snd (m g))"
  by (cases "m g") (simp add: io_bind_def)

lemma readall_after_open:
  assumes "files g r = Some bs" "CHR ''r'' \<in> set m" "CHR ''w'' \<notin> set m" "CHR ''a'' \<notin> set m"
    "fst (GioFileAdapter_init r m g) = Inr self"
  shows "fst (GioFileAdapter_readall self (snd (GioFileAdapter_init r m g))) = Inr bs"
proof -
  from init_read_ok(1) [OF assms(1,2)] assms(3,5)
  have s: "gin self = Some (next_id g)" "size_attr self = length bs" by auto
  from init_read_ok(2) [OF assms(1,2)] assms(4)
  have st: "streams (snd (GioFileAdapter_init r m g)) (next_id g) = Some (FileInputStream r 0 False)"
    by simp
  have "(- 1 :: int) < 0" by simp
  from read_fresh_input [OF s(1) st this] s(2) init_read_ok(4) [OF assms(1,2)] assms(1)
  show ?thesis by (simp add: GioFileAdapter_readall_def content_def)
qed

lemma byte_readlines_after_open:
  assumes "files g r = Some bs"
  shows "fst (io_bind (GioFileAdapter_init r ''rb'') GioFileAdapter_readlines g)
         = Inr (map (\<lambda>x. x @ lit ''\<newline>'') (split_on (lit ''\<newline>'') bs))"
proof -
  have r: "CHR ''r'' \<in> set ''rb''" by simp
  let ?S = "\<lparr>gfile = r, mode = ''rb'', size_attr = length bs,
            gfd = Some (next_id g), gin = Some (next_id g), gout = None, closed = False\<rparr>"
  have i: "fst (GioFileAdapter_init r ''rb'' g) = Inr ?S"
    using init_read_ok(1) [OF assms r] by simp
  have "fst (GioFileAdapter_readall ?S (snd (GioFileAdapter_init r ''rb'' g))) = Inr bs"
    by (rule readall_after_open [OF assms r _ _ i]) simp_all
  then show ?thesis
    unfolding io_bind_Inr [where m = "GioFileAdapter_init r ''rb''" and g = g, OF i]
      GioFileAdapter_readlines_def
    by (simp add: io_bind_Inr io_return_def)
qed

lemma text_readlines_after_open:
  assumes "files g r = Some bs" "bytes_decode bs = Inr t" "linesep \<noteq> []"
  shows "fst (io_bind (GioFileAdapter_init r ''r'')
                (\<lambda>a. GioUTF8FileAdapter_readlines linesep \<lparr>raw = a\<rparr>) g)
         = Inr (let lines = map (\<lambda>x. x @ lit ''\<newline>'') (split_on linesep t)
                in if last lines = lit ''\<newline>'' then butlast lines else lines)"
proof -
  have r: "CHR ''r'' \<in> set ''r''" by simp
  let ?S = "\<lparr>gfile = r, mode = ''r'', size_attr = length bs,
            gfd = Some (next_id g), gin = Some (next_id g), gout = None, closed = False\<rparr>"
  let ?g = "snd (GioFileAdapter_init r ''r'' g)"
  have i: "fst (GioFileAdapter_init r ''r'' g) = Inr ?S"
    using init_read_ok(1) [OF assms(1) r] by simp
  have a: "fst (GioFileAdapter_readall ?S ?g) = Inr bs"
    by (rule readall_after_open [OF assms(1) r _ _ i]) simp_all
  have "fst (GioUTF8FileAdapter_readall \<lparr>raw = ?S\<rparr> ?g) = Inr t"
    unfolding GioUTF8FileAdapter_readall_def using a assms(2)
    by (simp add: io_bind_Inr)
  then show ?thesis
    unfolding io_bind_Inr [where m = "GioFileAdapter_init r ''r''" and g = g, OF i]
      GioUTF8FileAdapter_readlines_def
    using assms(3) split_on_not_Nil [of linesep t]
    by (simp add: io_bind_Inr py_split_def io_return_def Let_def)
qed

lemma split_example:
  "split_on (lit ''\<newline>'') (lit ''a\<newline>b\<newline>'') = [lit ''a'', lit ''b'', []]"
  by (simp add: lit_def split_on.simps startswith_def)

lemma decode_example:
  "bytes_decode (lit ''a\<newline>b\<newline>'') = Inr (lit ''a\<newline>b\<newline>'')"
  by (simp add: lit_def bytes_decode_def utf8_scan.simps)

text \<open>
  C5: a file opened for reading and read with \<open>readlines()\<close>. The byte stream returns the
  chunks of the whole content between newline bytes, each with a newline appended, so
  that \<open>a\nb\n\<close> gives \<open>a\n\<close>, \<open>b\n\<close> and \<open>\n\<close>. The text stream splits the decoded
  content at \<open>os.linesep\<close>, appends a newline to each segment and drops the last segment
  when it is a lone newline; where \<open>os.linesep\<close> is \<open>\n\<close>, \<open>a\nb\n\<close> gives \<open>a\n\<close> and
  \<open>b\n\<close>.
\<close>

theorem readlines_of_both_layers:
  assumes "files g r = Some bs"
  shows "fst (io_bind (GioFileAdapter_init r ''rb'') GioFileAdapter_readlines g)
           = Inr (map (\<lambda>x. x @ lit ''\<newline>'') (split_on (lit ''\<newline>'') bs))
         \<and> (bs = lit ''a\<newline>b\<newline>'' \<longrightarrow>
              fst (io_bind (GioFileAdapter_init r ''rb'') GioFileAdapter_readlines g)
              = Inr [lit ''a\<newline>'', lit ''b\<newline>'', lit ''\<newline>''])
         \<and> (\<forall>t. bytes_decode bs = Inr t \<longrightarrow> linesep \<noteq> [] \<longrightarrow>
              fst (io_bind (GioFileAdapter_init r ''r'')
                     (\<lambda>a. GioUTF8FileAdapter_readlines linesep \<lparr>raw = a\<rparr>) g)
              = Inr (let lines = map (\<lambda>x. x @ lit ''\<newline>'') (split_on linesep t)
                     in if last lines = lit ''\<newline>'' then butlast lines else lines))
         \<and> (bs = lit ''a\<newline>b\<newline>'' \<longrightarrow>
              fst (io_bind (GioFileAdapter_init r ''r'')
                     (\<lambda>a. GioUTF8FileAdapter_readlines posix_linesep \<lparr>raw = a\<rparr>) g)
              = Inr [lit ''a\<newline>'', lit ''b\<newline>''])"
proof -
  note b = byte_readlines_after_open [OF assms]
  have 2: "bs = lit ''a\<newline>b\<newline>'' \<longrightarrow>
      fst (io_bind (GioFileAdapter_init r ''rb'') GioFileAdapter_readlines g)
      = Inr [lit ''a\<newline>'', lit ''b\<newline>'', lit ''\<newline>'']"
  proof
    assume e: "bs = lit ''a\<newline>b\<newline>''"
    show "fst (io_bind (GioFileAdapter_init r ''rb'') GioFileAdapter_readlines g)
      = Inr [lit ''a\<newline>'', lit ''b\<newline>'', lit ''\<newline>'']"
      unfolding b e split_example by (simp add: lit_def)
  qed
  have 3: "\<forall>t. bytes_decode bs = Inr t \<longrightarrow> linesep \<noteq> [] \<longrightarrow>
      fst (io_bind (GioFileAdapter_init r ''r'')
             (\<lambda>a. GioUTF8FileAdapter_readlines linesep \<lparr>raw = a\<rparr>) g)
      = Inr (let lines = map (\<lambda>x. x @ lit ''\<newline>'') (split_on linesep t)
             in if last lines = lit ''\<newline>'' then butlast lines else lines)"
    using text_readlines_after_open [OF assms] by blast
  have 4: "bs = lit ''a\<newline>b\<newline>'' \<longrightarrow>
      fst (io_bind (GioFileAdapter_init r ''r'')
             (\<lambda>a. GioUTF8FileAdapter_readlines posix_linesep \<lparr>raw = a\<rparr>) g)
      = Inr [lit ''a\<newline>'', lit ''b\<newline>'']"
  proof
    assume e: "bs = lit ''a\<newline>b\<newline>''"
    have d: "bytes_decode bs = Inr (lit ''a\<newline>b\<newline>'')"
      unfolding e by (rule decode_example)
    have n: "posix_linesep \<noteq> []" by (simp add: posix_linesep_def lit_def)
    have "(let lines = map (\<lambda>x. x @ lit ''\<newline>'') (split_on posix_linesep (lit ''a\<newline>b\<newline>''))
           in if last lines = lit ''\<newline>'' then butlast lines else lines)
          = [lit ''a\<newline>'', lit ''b\<newline>'']"
      unfolding posix_linesep_def split_example by (simp add: lit_def)
    with text_readlines_after_open [OF assms d n]
    show "fst (io_bind (GioFileAdapter_init r ''r'')
             (\<lambda>a. GioUTF8FileAdapter_readlines posix_linesep \<lparr>raw = a\<rparr>) g)
      = Inr [lit ''a\<newline>'', lit ''b\<newline>'']"
      by simp
  qed
  from b 2 3 4 show ?thesis by (intro conjI)
qed

theorem readlines_of_both_layers_witness:
  "files example_gio (lit ''file:///a'') = Some (lit ''a\<newline>b\<newline>'')
   \<and> bytes_decode (lit ''a\<newline>b\<newline>'') = Inr (lit ''a\<newline>b\<newline>'')
   \<and> posix_linesep \<noteq> []
   \<and> fst (io_bind (GioFileAdapter_init (lit ''file:///a'') ''rb'') GioFileAdapter_readlines
            example_gio)
       = Inr [lit ''a\<newline>'', lit ''b\<newline>'', lit ''\<newline>'']
   \<and> fst (io_bind (GioFileAdapter_init (lit ''file:///a'') ''r'')
            (\<lambda>a. GioUTF8FileAdapter_readlines posix_linesep \<lparr>raw = a\<rparr>) example_gio)
       = Inr [lit ''a\<newline>'', lit ''b\<newline>'']"
proof -
  have f: "files example_gio (lit ''file:///a'') = Some (lit ''a\<newline>b\<newline>'')"
    by (simp add: example_gio_def)
  have n: "posix_linesep \<noteq> []" by (simp add: posix_linesep_def lit_def)
  note T = readlines_of_both_layers [OF f, of posix_linesep]
  from T have 2: "fst (io_bind (GioFileAdapter_init (lit ''file:///a'') ''rb'')
      GioFileAdapter_readlines example_gio)
      = Inr [lit ''a\<newline>'', lit ''b\<newline>'', lit ''\<newline>'']"
    by blast
  from T have 4: "fst (io_bind (GioFileAdapter_init (lit ''file:///a'') ''r'')
      (\<lambda>a. GioUTF8FileAdapter_readlines posix_linesep \<lparr>raw = a\<rparr>) example_gio)
      = Inr [lit ''a\<newline>'', lit ''b\<newline>'']"
    by blast
  from f decode_example n 2 4 show ?thesis by (intro conjI)
qed

section \<open>Opening a target that does not exist\<close>

text \<open>
  Write mode creates a target that is absent, and append mode on an existing target
  leaves the position at the end of the data.
\<close>

lemma write_mode_creates_absent_target:
  assumes "files g r = None" "CHR ''w'' \<in> set m" "CHR ''r'' \<notin> set m"
  shows "\<exists>self. fst (GioFileAdapter_init r m g) = Inr self"
    and "files (snd (GioFileAdapter_init r m g)) r = Some []"
  using init_w_absent(1,6) [OF assms(1,3,2)] by simp_all

lemma append_mode_positions_at_end:
  assumes "files g r = Some bs" "CHR ''a'' \<in> set m"
  shows "fst (io_bind (GioFileAdapter_init r m) GioFileAdapter_tell g) = Inr (length bs)"
proof (cases "CHR ''r'' \<in> set m")
  case True
  note i = init_read_ok(1) [OF assms(1) True]
  from init_read_ok(2) [OF assms(1) True] assms(2) show ?thesis
    unfolding io_bind_Inr [where m = "GioFileAdapter_init r m" and g = g, OF i]
    by (simp add: GioFileAdapter_tell_def stream_tell_def cursor_def io_defs)
next
  case False
  note c = assms(1) False disjI2 [OF assms(2)]
  note i = init_rw_existing(1) [OF c]
  from init_rw_existing(2,3) [OF c] assms(2) show ?thesis
    unfolding io_bind_Inr [where m = "GioFileAdapter_init r m" and g = g, OF i]
    by (simp add: GioFileAdapter_tell_def stream_tell_def cursor_def io_defs)
qed

text \<open>
  C3: a stream opened in write or in append mode on an absent target is to create the
  target and succeed. In append mode the code does not: \<open>ab\<close> has no \<open>w\<close>, so the
  constructor first queries the size, which fails on the absent file, and raises
  \<open>IOError\<close>; the branch that would create the file is never reached and the file is
  not created.
\<close>

theorem append_mode_absent_target_raises:
  "files example_gio (new_for_uri example_gio (lit ''file:///b'')) = None
   \<and> GioFileSystem_open (lit ''file:///b'') ''ab'' example_gio
       = (Inl (IOError G_IO_ERROR_NOT_FOUND),
          example_gio\<lparr>calls := [QueryInfo (lit ''file:///b'')]\<rparr>)
   \<and> files (snd (GioFileSystem_open (lit ''file:///b'') ''ab'' example_gio)) (lit ''file:///b'')
       = None"
proof -
  have f: "files example_gio (lit ''file:///b'') = None"
    by (simp add: example_gio_def lit_def)
  have w: "CHR ''w'' \<notin> set ''ab''" by simp
  have r: "new_for_uri example_gio (lit ''file:///b'') = lit ''file:///b''"
    by (simp add: example_gio_def lit_def)
  from init_no_w_absent [OF f w] r f show ?thesis
    by (simp add: GioFileSystem_open_def io_defs example_gio_def)
qed

end
